theory Spec2Isabelle
  imports Complex_Main
begin

section \<open>Data model of \<open>BreastCancerDataModule\<close> (src/data/bcc_datamodule.py)\<close>

text \<open>
  The steps of a \<open>transforms.Compose\<close>, with the arguments the source passes:
  \<open>Grayscale(num_output_channels)\<close>, \<open>Resize((h, w))\<close>, \<open>RandomRotation(degrees)\<close>,
  \<open>Normalize(mean, std)\<close>.
\<close>

datatype transform =
    ToPILImage
  | Grayscale nat
  | Resize nat nat
  | RandomRotation nat
  | ToTensor
  | Normalize "int list" "int list"

type_synonym pipeline = "transform list"

text \<open>
  Exceptions that leave \<open>setup\<close>: the \<open>ValueError\<close> the source raises itself, with its
  message, and whatever the dataset constructor raises.
\<close>

datatype exn = ValueError string | AdapterError string

text \<open>The storage slot an opened dataset is assigned to.\<close>

datatype role = Train | Validation | Test | Predict

text \<open>
  A \<open>DeepLakeDataset\<close> object. The class lives in
  \<open>src/data/components/deeplake_parser.py\<close>; the module only constructs it from
  \<open>(data_dir, transform)\<close> and asks for its \<open>len\<close>. \<open>ds_id\<close> is the object's identity:
  every constructor call yields a new object.
\<close>

record 'src dataset =
  ds_id :: nat
  data_dir :: 'src
  ds_transform :: pipeline
  ds_len :: nat

text \<open>
  The constructor of \<open>DeepLakeDataset\<close>, taken as a parameter: it raises, or returns an
  object of the given length.
\<close>

type_synonym 'src adapter = "'src \<Rightarrow> pipeline \<Rightarrow> exn + nat"

text \<open>\<open>self.hparams\<close>, as filled by \<open>save_hyperparameters\<close> from the constructor's arguments.\<close>

record 'src hparams =
  hp_train_dir :: 'src
  hp_val_dir :: 'src
  hp_test_dir :: 'src
  hp_input_size :: "int \<times> int"
  hp_batch_size :: int
  hp_num_workers :: int
  hp_pin_memory :: bool

text \<open>
  The instance. \<open>data_predict\<close> is not assigned by \<open>__init__\<close>: \<open>None\<close> stands for the
  missing attribute as well. \<open>adapter_log\<close> is a ghost field: the constructor calls made
  so far, oldest first, each with the slot its result is meant for.
\<close>

record 'src module =
  hparams :: "'src hparams"
  train_transform :: pipeline
  val_transform :: pipeline
  test_transform :: pipeline
  ds_train :: 'src
  ds_val :: 'src
  ds_test :: 'src
  data_train :: "'src dataset option"
  data_val :: "'src dataset option"
  data_test :: "'src dataset option"
  data_predict :: "'src dataset option"
  adapter_log :: "(role \<times> 'src \<times> pipeline) list"

text \<open>\<open>__init__\<close> (lines 37-84).\<close>

definition init ::
  "'src \<Rightarrow> 'src \<Rightarrow> 'src \<Rightarrow> int \<times> int \<Rightarrow> int \<Rightarrow> int \<Rightarrow> bool \<Rightarrow> 'src module" where
  "init train_dir val_dir test_dir input_size batch_size num_workers pin_memory =
     \<lparr> hparams = \<lparr> hp_train_dir = train_dir, hp_val_dir = val_dir, hp_test_dir = test_dir,
                   hp_input_size = input_size, hp_batch_size = batch_size,
                   hp_num_workers = num_workers, hp_pin_memory = pin_memory \<rparr>,
       train_transform =
         [ToPILImage, Grayscale 1, Resize 256 256, RandomRotation 20, ToTensor,
          Normalize [0] [1]],
       val_transform =
         [ToPILImage, Grayscale 1, Resize 256 256, ToTensor, Normalize [0] [1]],
       test_transform =
         [ToPILImage, Grayscale 1, Resize 256 256, ToTensor, Normalize [0] [1]],
       ds_train = train_dir,
       ds_val = val_dir,
       ds_test = test_dir,
       data_train = None,
       data_val = None,
       data_test = None,
       data_predict = None,
       adapter_log = [] \<rparr>"

text \<open>The constructor with its default arguments.\<close>

definition init_default :: "'src \<Rightarrow> 'src \<Rightarrow> 'src \<Rightarrow> 'src module" where
  "init_default train_dir val_dir test_dir =
     init train_dir val_dir test_dir (600, 500) 64 0 False"

section \<open>\<open>setup\<close> (lines 90-122)\<close>

text \<open>
  One call \<open>DeepLakeDataset(data_dir=src, transform=tf)\<close> whose result is meant for slot
  \<open>r\<close>: the call is logged, and it raises or returns a new object.
\<close>

definition DeepLakeDataset ::
  "'src adapter \<Rightarrow> role \<Rightarrow> 'src \<Rightarrow> pipeline \<Rightarrow> 'src module
     \<Rightarrow> (exn + 'src dataset) \<times> 'src module" where
  "DeepLakeDataset adapter r src tf m =
     (let m' = m\<lparr>adapter_log := adapter_log m @ [(r, src, tf)]\<rparr> in
      case adapter src tf of
        Inl e \<Rightarrow> (Inl e, m')
      | Inr n \<Rightarrow>
          (Inr \<lparr> ds_id = length (adapter_log m), data_dir = src, ds_transform = tf,
                 ds_len = n \<rparr>, m'))"

text \<open>
  The result of a block of \<open>setup\<close> is the exception that left it, if any, and the instance
  as the block left it: an assignment made before a \<open>raise\<close> stays.
\<close>

text \<open>Lines 91-97.\<close>

definition setup_train ::
  "'src adapter \<Rightarrow> string option \<Rightarrow> 'src module \<Rightarrow> exn option \<times> 'src module" where
  "setup_train adapter stage m =
     (if stage \<in> set [Some ''train'', Some ''fit'', None] \<and> data_train m = None then
        (case DeepLakeDataset adapter Train (ds_train m) (train_transform m) m of
           (Inl e, m') \<Rightarrow> (Some e, m')
         | (Inr d, m') \<Rightarrow>
             (let m'' = m'\<lparr>data_train := Some d\<rparr> in
              if ds_len d = 0 then (Some (ValueError ''Train dataset is empty.''), m'')
              else (None, m'')))
      else (None, m))"

text \<open>Lines 100-106.\<close>

definition setup_val ::
  "'src adapter \<Rightarrow> 'src module \<Rightarrow> exn option \<times> 'src module" where
  "setup_val adapter m =
     (if data_val m = None then
        (case DeepLakeDataset adapter Validation (ds_val m) (val_transform m) m of
           (Inl e, m') \<Rightarrow> (Some e, m')
         | (Inr d, m') \<Rightarrow>
             (let m'' = m'\<lparr>data_val := Some d\<rparr> in
              if ds_len d = 0 then (Some (ValueError ''Validation dataset is empty.''), m'')
              else (None, m'')))
      else (None, m))"

text \<open>Lines 107-113.\<close>

definition setup_test ::
  "'src adapter \<Rightarrow> 'src module \<Rightarrow> exn option \<times> 'src module" where
  "setup_test adapter m =
     (if data_test m = None then
        (case DeepLakeDataset adapter Test (ds_test m) (test_transform m) m of
           (Inl e, m') \<Rightarrow> (Some e, m')
         | (Inr d, m') \<Rightarrow>
             (let m'' = m'\<lparr>data_test := Some d\<rparr> in
              if ds_len d = 0 then (Some (ValueError ''Test dataset is empty.''), m'')
              else (None, m'')))
      else (None, m))"

text \<open>Lines 99-113.\<close>

definition setup_val_test ::
  "'src adapter \<Rightarrow> string option \<Rightarrow> 'src module \<Rightarrow> exn option \<times> 'src module" where
  "setup_val_test adapter stage m =
     (if stage \<in> set [Some ''validation'', Some ''fit'', None] then
        (case setup_val adapter m of
           (Some e, m') \<Rightarrow> (Some e, m')
         | (None, m') \<Rightarrow> setup_test adapter m')
      else (None, m))"

text \<open>Lines 115-122: the guard reads \<open>data_test\<close>, the assignment goes to \<open>data_predict\<close>.\<close>

definition setup_predict ::
  "'src adapter \<Rightarrow> string option \<Rightarrow> 'src module \<Rightarrow> exn option \<times> 'src module" where
  "setup_predict adapter stage m =
     (if stage = Some ''predict'' then
        (if data_test m = None then
           (case DeepLakeDataset adapter Predict (ds_test m) (test_transform m) m of
              (Inl e, m') \<Rightarrow> (Some e, m')
            | (Inr d, m') \<Rightarrow>
                (let m'' = m'\<lparr>data_predict := Some d\<rparr> in
                 if ds_len d = 0 then (Some (ValueError ''Predict dataset is empty.''), m'')
                 else (None, m'')))
         else (None, m))
      else (None, m))"

text \<open>
  \<open>setup\<close>: the three \<open>if\<close> blocks in sequence; an exception skips the rest. (The name
  \<open>setup\<close> is a keyword of Isabelle.)
\<close>

definition setup_stage ::
  "'src adapter \<Rightarrow> string option \<Rightarrow> 'src module \<Rightarrow> exn option \<times> 'src module" where
  "setup_stage adapter stage m =
     (case setup_train adapter stage m of
        (Some e, m1) \<Rightarrow> (Some e, m1)
      | (None, m1) \<Rightarrow>
          (case setup_val_test adapter stage m1 of
             (Some e, m2) \<Rightarrow> (Some e, m2)
           | (None, m2) \<Rightarrow> setup_predict adapter stage m2))"

section \<open>The loader getters (lines 124-164)\<close>

text \<open>
  \<open>DataLoader\<close> is torch's class. The getters are modelled relative to its constructor,
  taken as a parameter that receives the keyword arguments of the call; the getters
  themselves contain no check and no \<open>raise\<close>.
\<close>

record 'src loader_args =
  dataset :: "'src dataset option"
  batch_size :: int
  num_workers :: int
  pin_memory :: bool
  shuffle :: bool

definition train_dataloader :: "('src loader_args \<Rightarrow> 'l) \<Rightarrow> 'src module \<Rightarrow> 'l" where
  "train_dataloader DataLoader m =
     DataLoader \<lparr> dataset = data_train m,
                  batch_size = hp_batch_size (hparams m),
                  num_workers = hp_num_workers (hparams m),
                  pin_memory = hp_pin_memory (hparams m),
                  shuffle = True \<rparr>"

definition val_dataloader :: "('src loader_args \<Rightarrow> 'l) \<Rightarrow> 'src module \<Rightarrow> 'l" where
  "val_dataloader DataLoader m =
     DataLoader \<lparr> dataset = data_val m,
                  batch_size = hp_batch_size (hparams m),
                  num_workers = hp_num_workers (hparams m),
                  pin_memory = hp_pin_memory (hparams m),
                  shuffle = False \<rparr>"

definition test_dataloader :: "('src loader_args \<Rightarrow> 'l) \<Rightarrow> 'src module \<Rightarrow> 'l" where
  "test_dataloader DataLoader m =
     DataLoader \<lparr> dataset = data_test m,
                  batch_size = hp_batch_size (hparams m),
                  num_workers = hp_num_workers (hparams m),
                  pin_memory = hp_pin_memory (hparams m),
                  shuffle = False \<rparr>"

section \<open>Iterating a loader\<close>

text \<open>
  Modelled from the spec: the batch iterator that \<open>DataLoader\<close> provides is not part of
  the source. Section 4.4 of the specification describes it: the samples are grouped into
  batches of \<open>batch_size\<close>, the last batch may be smaller; with \<open>shuffle\<close> each restart
  produces a new random permutation, otherwise the order is the insertion order. Samples
  are named by their index.
\<close>

function batches :: "nat \<Rightarrow> 'a list \<Rightarrow> 'a list list" where
  "batches B xs = (if B = 0 \<or> xs = [] then [] else take B xs # batches B (drop B xs))"
  by pat_completeness auto
termination
  by (relation "measure (\<lambda>(B, xs). length xs)") auto

text \<open>
  Modelled from the spec: one full iteration, the \<open>k\<close>-th since the loader was built.
  \<open>perm k\<close> is the permutation the random source draws for that restart. The specification
  describes no batches for an unresolved partition or a batch size that is not positive.
\<close>

definition iterate ::
  "(nat \<Rightarrow> nat list \<Rightarrow> nat list) \<Rightarrow> nat \<Rightarrow> 'src loader_args \<Rightarrow> nat list list option" where
  "iterate perm k a =
     (case dataset a of
        None \<Rightarrow> None
      | Some d \<Rightarrow>
          if batch_size a \<le> 0 then None
          else Some (batches (nat (batch_size a))
                      (if shuffle a then perm k [0..<ds_len d] else [0..<ds_len d])))"

text \<open>
  Modelled from the spec: \<open>Normalize(mean, std)\<close> maps a value \<open>x\<close> of a channel to
  \<open>(x - mean) / std\<close> (section 4.2: zero-mean, unit-scale normalization), here in exact
  arithmetic.
\<close>

definition normalize_value :: "rat \<Rightarrow> rat \<Rightarrow> rat \<Rightarrow> rat" where
  "normalize_value mean std x = (x - mean) / std"

section \<open>Vocabulary for the properties of \<open>setup\<close>\<close>

text \<open>
  The slots, sources and pipelines by role, as \<open>setup\<close> pairs them: the predict slot is
  filled from \<open>ds_test\<close> with \<open>test_transform\<close>.
\<close>

fun slot :: "role \<Rightarrow> 'src module \<Rightarrow> 'src dataset option" where
  "slot Train m = data_train m"
| "slot Validation m = data_val m"
| "slot Test m = data_test m"
| "slot Predict m = data_predict m"

fun slot_update :: "role \<Rightarrow> 'src dataset option \<Rightarrow> 'src module \<Rightarrow> 'src module" where
  "slot_update Train d m = m\<lparr>data_train := d\<rparr>"
| "slot_update Validation d m = m\<lparr>data_val := d\<rparr>"
| "slot_update Test d m = m\<lparr>data_test := d\<rparr>"
| "slot_update Predict d m = m\<lparr>data_predict := d\<rparr>"

fun role_source :: "role \<Rightarrow> 'src module \<Rightarrow> 'src" where
  "role_source Train m = ds_train m"
| "role_source Validation m = ds_val m"
| "role_source Test m = ds_test m"
| "role_source Predict m = ds_test m"

fun role_transform :: "role \<Rightarrow> 'src module \<Rightarrow> pipeline" where
  "role_transform Train m = train_transform m"
| "role_transform Validation m = val_transform m"
| "role_transform Test m = test_transform m"
| "role_transform Predict m = test_transform m"

text \<open>The messages of the four \<open>raise ValueError\<close> statements.\<close>

fun empty_message :: "role \<Rightarrow> string" where
  "empty_message Train = ''Train dataset is empty.''"
| "empty_message Validation = ''Validation dataset is empty.''"
| "empty_message Test = ''Test dataset is empty.''"
| "empty_message Predict = ''Predict dataset is empty.''"

text \<open>The log entry of the constructor call for a role.\<close>

definition call_of :: "'src module \<Rightarrow> role \<Rightarrow> role \<times> 'src \<times> pipeline" where
  "call_of m r = (r, role_source r m, role_transform r m)"

text \<open>
  How the block of a role ends once its guard has let it in: with the constructor's
  exception, with the \<open>ValueError\<close> of the emptiness check, or normally.
\<close>

definition outcome :: "'src adapter \<Rightarrow> 'src module \<Rightarrow> role \<Rightarrow> exn option" where
  "outcome adapter m r =
     (case adapter (role_source r m) (role_transform r m) of
        Inl e \<Rightarrow> Some e
      | Inr n \<Rightarrow> if n = 0 then Some (ValueError (empty_message r)) else None)"

text \<open>
  The body of a guarded block, for any role: the call is logged; unless the constructor
  raises, the new object is assigned to the slot, before its length is looked at.
  (\<open>setup_train_resolve\<close> and its siblings below show that each block of the source is this.)
\<close>

definition resolve :: "'src adapter \<Rightarrow> role \<Rightarrow> 'src module \<Rightarrow> exn option \<times> 'src module" where
  "resolve adapter r m =
     (let m' = m\<lparr>adapter_log := adapter_log m @ [call_of m r]\<rparr> in
      (outcome adapter m r,
       case adapter (role_source r m) (role_transform r m) of
         Inl e \<Rightarrow> m'
       | Inr n \<Rightarrow>
           slot_update r
             (Some \<lparr> ds_id = length (adapter_log m), data_dir = role_source r m,
                      ds_transform = role_transform r m, ds_len = n \<rparr>) m'))"

text \<open>Blocks in sequence; the first exception ends the run.\<close>

fun run :: "'src adapter \<Rightarrow> role list \<Rightarrow> 'src module \<Rightarrow> exn option \<times> 'src module" where
  "run adapter [] m = (None, m)"
| "run adapter (r # rs) m =
     (case resolve adapter r m of
        (Some e, m') \<Rightarrow> (Some e, m')
      | (None, m') \<Rightarrow> run adapter rs m')"

text \<open>
  The roles whose blocks a stage identifier lets in, in the order of the source, and the
  guard of each block on the instance: the predict block reads \<open>data_test\<close>. \<open>plan\<close> is the
  list of blocks a call enters if nothing raises (\<open>setup_stage_run\<close> below).
\<close>

definition stage_roles :: "string option \<Rightarrow> role list" where
  "stage_roles stage =
     (if stage = Some ''train'' then [Train]
      else if stage = Some ''validation'' then [Validation, Test]
      else if stage = Some ''fit'' \<or> stage = None then [Train, Validation, Test]
      else if stage = Some ''predict'' then [Predict]
      else [])"

fun unresolved :: "'src module \<Rightarrow> role \<Rightarrow> bool" where
  "unresolved m Predict = (data_test m = None)"
| "unresolved m r = (slot r m = None)"

definition plan :: "string option \<Rightarrow> 'src module \<Rightarrow> role list" where
  "plan stage m = filter (unresolved m) (stage_roles stage)"

text \<open>
  The roles a run constructs a dataset for: those of the list up to the first that fails.
  \<open>new_calls\<close> are the log entries an operation added.
\<close>

fun attempted :: "'src adapter \<Rightarrow> 'src module \<Rightarrow> role list \<Rightarrow> role list" where
  "attempted adapter m [] = []"
| "attempted adapter m (r # rs) =
     r # (if outcome adapter m r = None then attempted adapter m rs else [])"

definition new_calls :: "'src module \<Rightarrow> 'src module \<Rightarrow> (role \<times> 'src \<times> pipeline) list" where
  "new_calls m m' = drop (length (adapter_log m)) (adapter_log m')"

text \<open>A sequence of \<open>setup\<close> calls on one instance; the caller goes on after an exception.\<close>

fun setup_calls :: "'src adapter \<Rightarrow> string option list \<Rightarrow> 'src module \<Rightarrow> 'src module" where
  "setup_calls adapter [] m = m"
| "setup_calls adapter (stage # stages) m =
     setup_calls adapter stages (snd (setup_stage adapter stage m))"

text \<open>Whether a logged constructor call raised or returned an empty dataset.\<close>

definition call_failed :: "'src adapter \<Rightarrow> role \<times> 'src \<times> pipeline \<Rightarrow> bool" where
  "call_failed adapter c =
     (case c of (r, src, tf) \<Rightarrow> (case adapter src tf of Inl e \<Rightarrow> True | Inr n \<Rightarrow> n = 0))"

section \<open>\<open>setup\<close> as a run over the roles of the stage\<close>

lemma setup_train_resolve:
  "setup_train adapter stage m =
     (if stage \<in> {Some ''train'', Some ''fit'', None} \<and> data_train m = None
      then resolve adapter Train m else (None, m))"
  by (simp add: setup_train_def resolve_def DeepLakeDataset_def outcome_def call_of_def Let_def
      split: sum.splits)

lemma setup_val_resolve:
  "setup_val adapter m = (if data_val m = None then resolve adapter Validation m else (None, m))"
  by (simp add: setup_val_def resolve_def DeepLakeDataset_def outcome_def call_of_def Let_def
      split: sum.splits)

lemma setup_test_resolve:
  "setup_test adapter m = (if data_test m = None then resolve adapter Test m else (None, m))"
  by (simp add: setup_test_def resolve_def DeepLakeDataset_def outcome_def call_of_def Let_def
      split: sum.splits)

lemma setup_predict_resolve:
  "setup_predict adapter stage m =
     (if stage = Some ''predict'' \<and> data_test m = None then resolve adapter Predict m
      else (None, m))"
  by (simp add: setup_predict_def resolve_def DeepLakeDataset_def outcome_def call_of_def Let_def
      split: sum.splits)

lemma resolve_data_test: "r \<noteq> Test \<Longrightarrow> data_test (snd (resolve adapter r m)) = data_test m"
  by (cases r) (simp_all add: resolve_def Let_def split: sum.splits)

lemma resolve_data_val: "r \<noteq> Validation \<Longrightarrow> data_val (snd (resolve adapter r m)) = data_val m"
  by (cases r) (simp_all add: resolve_def Let_def split: sum.splits)

lemma case_exn:
  "(case p of (Some e, m') \<Rightarrow> (Some e, m') | (None, m') \<Rightarrow> f m')
     = (if fst p = None then f (snd p) else p)"
  by (cases p; cases "fst p") auto

lemma run_Cons:
  "run adapter (r # rs) m =
     (if fst (resolve adapter r m) = None then run adapter rs (snd (resolve adapter r m))
      else resolve adapter r m)"
  by (simp add: case_exn)

lemma run_single: "run adapter [r] m = resolve adapter r m"
  by (simp add: run_Cons prod_eq_iff del: run.simps(2))

lemma val_then_test_run:
  "(case setup_val adapter m of (Some e, m') \<Rightarrow> (Some e, m') | (None, m') \<Rightarrow> setup_test adapter m')
     = run adapter (filter (unresolved m) [Validation, Test]) m"
  by (simp add: case_exn setup_val_resolve setup_test_resolve run_Cons
      resolve_data_test prod_eq_iff del: run.simps(2) not_None_eq)

lemma setup_val_test_run:
  "setup_val_test adapter stage m =
     (if stage \<in> {Some ''validation'', Some ''fit'', None}
      then run adapter (filter (unresolved m) [Validation, Test]) m else (None, m))"
  unfolding setup_val_test_def val_then_test_run by simp

lemma setup_train_run:
  "setup_train adapter stage m =
     (if stage \<in> {Some ''train'', Some ''fit'', None}
      then run adapter (filter (unresolved m) [Train]) m else (None, m))"
  unfolding setup_train_resolve by (simp add: run_single del: run.simps(2))

lemma setup_predict_run:
  "setup_predict adapter stage m =
     (if stage = Some ''predict''
      then run adapter (filter (unresolved m) [Predict]) m else (None, m))"
  unfolding setup_predict_resolve by (simp add: run_single del: run.simps(2))

lemma run_append:
  "run adapter (xs @ ys) m =
     (if fst (run adapter xs m) = None then run adapter ys (snd (run adapter xs m))
      else run adapter xs m)"
  by (induction xs arbitrary: m) (simp_all add: run_Cons del: run.simps(2) not_None_eq)

lemma unresolved_after_train:
  "r \<noteq> Train \<Longrightarrow> r \<noteq> Predict \<Longrightarrow>
   unresolved (snd (run adapter (filter (unresolved m) [Train]) m)) r = unresolved m r"
  by (cases r) (simp_all add: run_single resolve_data_test resolve_data_val del: run.simps(2))

lemma train_then_val_test_run:
  "(case run adapter (filter (unresolved m) [Train]) m of
      (Some e, m1) \<Rightarrow> (Some e, m1)
    | (None, m1) \<Rightarrow> run adapter (filter (unresolved m1) [Validation, Test]) m1)
   = run adapter (filter (unresolved m) [Train, Validation, Test]) m"
proof -
  have "filter (unresolved m) [Train, Validation, Test]
        = filter (unresolved m) [Train] @ filter (unresolved m) [Validation, Test]"
    by simp
  moreover have "filter (unresolved (snd (run adapter (filter (unresolved m) [Train]) m)))
                   [Validation, Test] = filter (unresolved m) [Validation, Test]"
    using unresolved_after_train [of Validation adapter m]
      unresolved_after_train [of Test adapter m]
    by (simp del: run.simps(2) unresolved.simps)
  ultimately show ?thesis
    by (simp only: case_exn run_append)
qed

lemma case_exn_id:
  "(case p of (Some e, m') \<Rightarrow> (Some e, m') | (None, m') \<Rightarrow> (None, m')) = p"
  by (cases p; cases "fst p") auto

lemma setup_stage_run_all:
  assumes "stage = Some ''fit'' \<or> stage = None"
  shows "setup_stage adapter stage m = run adapter (plan stage m) m"
proof -
  have T: "setup_train adapter stage m = run adapter (filter (unresolved m) [Train]) m"
    using assms by (auto simp: setup_train_run)
  have VT: "setup_val_test adapter stage m1
              = run adapter (filter (unresolved m1) [Validation, Test]) m1" for m1
    using assms by (auto simp: setup_val_test_run)
  have P: "setup_predict adapter stage m2 = (None, m2)" for m2
    using assms by (auto simp: setup_predict_run)
  have "plan stage m = filter (unresolved m) [Train, Validation, Test]"
    using assms by (auto simp: plan_def stage_roles_def)
  then show ?thesis
    by (simp only: setup_stage_def T VT P case_exn_id train_then_val_test_run)
qed

lemma setup_stage_run_train:
  assumes "stage = Some ''train''"
  shows "setup_stage adapter stage m = run adapter (plan stage m) m"
proof -
  have T: "setup_train adapter stage m = run adapter (filter (unresolved m) [Train]) m"
    using assms by (auto simp: setup_train_run)
  have VT: "setup_val_test adapter stage m1 = (None, m1)" for m1
    using assms by (auto simp: setup_val_test_run)
  have P: "setup_predict adapter stage m2 = (None, m2)" for m2
    using assms by (auto simp: setup_predict_run)
  have "plan stage m = filter (unresolved m) [Train]"
    using assms by (auto simp: plan_def stage_roles_def)
  then show ?thesis
    by (simp only: setup_stage_def T VT P case_exn_id prod.case option.case filter.simps)
qed

lemma setup_stage_run_val:
  assumes "stage = Some ''validation''"
  shows "setup_stage adapter stage m = run adapter (plan stage m) m"
proof -
  have T: "setup_train adapter stage m = (None, m)"
    using assms by (auto simp: setup_train_run)
  have VT: "setup_val_test adapter stage m1 = run adapter (filter (unresolved m1) [Validation, Test]) m1" for m1
    using assms by (auto simp: setup_val_test_run)
  have P: "setup_predict adapter stage m2 = (None, m2)" for m2
    using assms by (auto simp: setup_predict_run)
  have "plan stage m = filter (unresolved m) [Validation, Test]"
    using assms by (auto simp: plan_def stage_roles_def)
  then show ?thesis
    by (simp only: setup_stage_def T VT P case_exn_id prod.case option.case filter.simps)
qed

lemma setup_stage_run_pred:
  assumes "stage = Some ''predict''"
  shows "setup_stage adapter stage m = run adapter (plan stage m) m"
proof -
  have T: "setup_train adapter stage m = (None, m)"
    using assms by (auto simp: setup_train_run)
  have VT: "setup_val_test adapter stage m1 = (None, m1)" for m1
    using assms by (auto simp: setup_val_test_run)
  have P: "setup_predict adapter stage m2 = run adapter (filter (unresolved m2) [Predict]) m2" for m2
    using assms by (auto simp: setup_predict_run)
  have "plan stage m = filter (unresolved m) [Predict]"
    using assms by (auto simp: plan_def stage_roles_def)
  then show ?thesis
    by (simp only: setup_stage_def T VT P case_exn_id prod.case option.case filter.simps)
qed

lemma setup_stage_run_other:
  assumes "stage \<notin> {Some ''train'', Some ''fit'', None, Some ''validation'', Some ''predict''}"
  shows "setup_stage adapter stage m = run adapter (plan stage m) m"
proof -
  have T: "setup_train adapter stage m = (None, m)"
    using assms by (auto simp: setup_train_run)
  have VT: "setup_val_test adapter stage m1 = (None, m1)" for m1
    using assms by (auto simp: setup_val_test_run)
  have P: "setup_predict adapter stage m2 = (None, m2)" for m2
    using assms by (auto simp: setup_predict_run)
  have "plan stage m = []"
    using assms by (auto simp: plan_def stage_roles_def)
  then show ?thesis
    by (simp only: setup_stage_def T VT P prod.case option.case run.simps(1))
qed

lemma setup_stage_run: "setup_stage adapter stage m = run adapter (plan stage m) m"
proof -
  consider (train) "stage = Some ''train''" | (all) "stage = Some ''fit'' \<or> stage = None"
    | (val) "stage = Some ''validation''" | (pred) "stage = Some ''predict''"
    | (other) "stage \<notin> {Some ''train'', Some ''fit'', None, Some ''validation'', Some ''predict''}"
    by blast
  then show ?thesis
  proof cases
    case train
    then show ?thesis by (rule setup_stage_run_train)
  next
    case all
    then show ?thesis by (rule setup_stage_run_all)
  next
    case val
    then show ?thesis by (rule setup_stage_run_val)
  next
    case pred
    then show ?thesis by (rule setup_stage_run_pred)
  next
    case other
    then show ?thesis by (rule setup_stage_run_other)
  qed
qed

lemma role_source_resolve: "role_source r' (snd (resolve adapter r m)) = role_source r' m"
  by (cases r; cases r') (simp_all add: resolve_def Let_def split: sum.splits)

lemma role_transform_resolve:
  "role_transform r' (snd (resolve adapter r m)) = role_transform r' m"
  by (cases r; cases r') (simp_all add: resolve_def Let_def split: sum.splits)

lemma hparams_resolve: "hparams (snd (resolve adapter r m)) = hparams m"
  by (cases r) (simp_all add: resolve_def Let_def split: sum.splits)

lemma log_resolve: "adapter_log (snd (resolve adapter r m)) = adapter_log m @ [call_of m r]"
  by (cases r) (simp_all add: resolve_def Let_def split: sum.splits)

lemma fst_resolve: "fst (resolve adapter r m) = outcome adapter m r"
  by (simp add: resolve_def Let_def)

lemma slot_resolve_other: "r' \<noteq> r \<Longrightarrow> slot r' (snd (resolve adapter r m)) = slot r' m"
  by (cases r; cases r') (simp_all add: resolve_def Let_def split: sum.splits)

lemma slot_resolve_same:
  "slot r (snd (resolve adapter r m)) =
     (case adapter (role_source r m) (role_transform r m) of
        Inl e \<Rightarrow> slot r m
      | Inr n \<Rightarrow> Some \<lparr> ds_id = length (adapter_log m), data_dir = role_source r m,
                        ds_transform = role_transform r m, ds_len = n \<rparr>)"
  by (cases r) (simp_all add: resolve_def Let_def split: sum.splits)

lemma outcome_resolve: "outcome adapter (snd (resolve adapter r m)) = outcome adapter m"
  by (rule ext) (simp add: outcome_def role_source_resolve role_transform_resolve)

lemma call_of_resolve: "call_of (snd (resolve adapter r m)) = call_of m"
  by (rule ext) (simp add: call_of_def role_source_resolve role_transform_resolve)

lemma attempted_resolve:
  "attempted adapter (snd (resolve adapter r m)) rs = attempted adapter m rs"
  by (induction rs) (simp_all add: outcome_resolve)

lemma run_step:
  "run adapter (r # rs) m =
     (if outcome adapter m r = None then run adapter rs (snd (resolve adapter r m))
      else resolve adapter r m)"
  by (simp only: run_Cons fst_resolve)

lemma run_log:
  "adapter_log (snd (run adapter rs m))
     = adapter_log m @ map (call_of m) (attempted adapter m rs)"
  by (induction rs arbitrary: m)
    (simp_all add: run_step log_resolve call_of_resolve attempted_resolve
      del: run.simps(2) not_None_eq)

lemma run_fst:
  "fst (run adapter rs m) =
     (if attempted adapter m rs = [] then None
      else outcome adapter m (last (attempted adapter m rs)))"
  by (induction rs arbitrary: m)
    (simp_all add: run_step fst_resolve outcome_resolve attempted_resolve
      del: run.simps(2) not_None_eq)

lemma run_slot_other:
  "r \<notin> set (attempted adapter m rs) \<Longrightarrow> slot r (snd (run adapter rs m)) = slot r m"
  by (induction rs arbitrary: m)
    (auto simp add: run_step slot_resolve_other attempted_resolve
      simp del: run.simps(2) not_None_eq split: if_splits)

lemma run_static:
  "role_source r (snd (run adapter rs m)) = role_source r m
   \<and> role_transform r (snd (run adapter rs m)) = role_transform r m
   \<and> hparams (snd (run adapter rs m)) = hparams m"
  by (induction rs arbitrary: m)
    (simp_all add: run_step role_source_resolve role_transform_resolve hparams_resolve
      del: run.simps(2) not_None_eq)

lemma attempted_subset: "set (attempted adapter m rs) \<subseteq> set rs"
  by (induction rs) auto

lemma attempted_distinct: "distinct rs \<Longrightarrow> distinct (attempted adapter m rs)"
  using attempted_subset [of adapter m] by (induction rs) auto

lemma attempted_butlast_ok:
  "r \<in> set (butlast (attempted adapter m rs)) \<Longrightarrow> outcome adapter m r = None"
  by (induction rs) (auto split: if_splits)

lemma run_slot_attempted:
  assumes "distinct rs" "i < length (attempted adapter m rs)"
  shows "slot (attempted adapter m rs ! i) (snd (run adapter rs m)) =
           (case adapter (role_source (attempted adapter m rs ! i) m)
                         (role_transform (attempted adapter m rs ! i) m) of
              Inl e \<Rightarrow> slot (attempted adapter m rs ! i) m
            | Inr n \<Rightarrow> Some \<lparr> ds_id = length (adapter_log m) + i,
                              data_dir = role_source (attempted adapter m rs ! i) m,
                              ds_transform = role_transform (attempted adapter m rs ! i) m,
                              ds_len = n \<rparr>)"
  using assms
proof (induction rs arbitrary: m i)
  case Nil
  then show ?case by simp
next
  case (Cons r rs)
  let ?m1 = "snd (resolve adapter r m)"
  show ?case
  proof (cases i)
    case 0
    have "r \<notin> set (attempted adapter ?m1 rs)"
      using Cons.prems(1) attempted_subset [of adapter ?m1 rs] by auto
    then have "slot r (snd (run adapter rs ?m1)) = slot r ?m1"
      by (rule run_slot_other)
    with 0 show ?thesis
      by (simp add: run_step slot_resolve_same del: run.simps(2) not_None_eq
          split: sum.splits)
  next
    case (Suc j)
    with Cons.prems have ok: "outcome adapter m r = None"
      and j: "j < length (attempted adapter m rs)"
      by (auto split: if_splits)
    have ne: "attempted adapter m rs ! j \<noteq> r"
      using Cons.prems(1) j attempted_subset [of adapter m rs] nth_mem by fastforce
    have "slot (attempted adapter ?m1 rs ! j) (snd (run adapter rs ?m1)) =
           (case adapter (role_source (attempted adapter ?m1 rs ! j) ?m1)
                         (role_transform (attempted adapter ?m1 rs ! j) ?m1) of
              Inl e \<Rightarrow> slot (attempted adapter ?m1 rs ! j) ?m1
            | Inr n \<Rightarrow> Some \<lparr> ds_id = length (adapter_log ?m1) + j,
                              data_dir = role_source (attempted adapter ?m1 rs ! j) ?m1,
                              ds_transform = role_transform (attempted adapter ?m1 rs ! j) ?m1,
                              ds_len = n \<rparr>)"
      using Cons.prems(1) j by (intro Cons.IH) (simp_all add: attempted_resolve)
    then show ?thesis
      using ok Suc ne
      by (simp add: run_step attempted_resolve role_source_resolve role_transform_resolve
          log_resolve slot_resolve_other del: run.simps(2) not_None_eq split: sum.splits)
  qed
qed

lemma plan_distinct: "distinct (plan stage m)"
  by (simp add: plan_def stage_roles_def)

section \<open>Stage identifiers\<close>




section \<open>Batches\<close>

declare batches.simps [simp del]

lemma batches_Nil: "batches B [] = []"
  by (simp add: batches.simps)

lemma batches_step:
  "0 < B \<Longrightarrow> xs \<noteq> [] \<Longrightarrow> batches B xs = take B xs # batches B (drop B xs)"
  by (subst batches.simps) simp

lemma concat_batches: "0 < B \<Longrightarrow> concat (batches B xs) = xs"
proof (induction B xs rule: batches.induct)
  case (1 B xs)
  then show ?case
    by (cases "xs = []") (simp_all add: batches_Nil batches_step)
qed

lemma length_batches: "0 < B \<Longrightarrow> length (batches B xs) = (length xs + B - 1) div B"
proof (induction B xs rule: batches.induct)
  case (1 B xs)
  show ?case
  proof (cases "xs = []")
    case True
    with 1 show ?thesis by (simp add: batches_Nil)
  next
    case False
    show ?thesis
    proof (cases "length xs \<le> B")
      case True
      then have "drop B xs = []" by simp
      moreover have "(length xs + B - 1) div B = 1"
      proof -
        obtain k where k: "length xs = Suc k"
          using False by (cases xs) auto
        with True have "k < B" by simp
        then have "(B + k) div B = 1"
          using 1(2) by simp
        then show ?thesis
          by (simp add: k add.commute)
      qed
      ultimately show ?thesis
        using False 1(2) by (simp add: batches_step batches_Nil)
    next
      case gt: False
      then have "length xs + B - 1 = (length xs - B + B - 1) + B" by simp
      then have "(length xs + B - 1) div B = (length xs - B + B - 1) div B + 1"
        using 1(2) by (metis Suc_eq_plus1 div_add_self2 less_numeral_extra(3))
      then show ?thesis
        using False 1 by (simp add: batches_step)
    qed
  qed
qed

lemma butlast_batches: "b \<in> set (butlast (batches B xs)) \<Longrightarrow> length b = B"
proof (induction B xs arbitrary: b rule: batches.induct)
  case (1 B xs)
  show ?case
  proof (cases "B = 0 \<or> xs = []")
    case True
    with 1(2) show ?thesis by (auto simp: batches.simps)
  next
    case False
    then have step: "batches B xs = take B xs # batches B (drop B xs)"
      by (simp add: batches_step)
    show ?thesis
    proof (cases "batches B (drop B xs) = []")
      case True
      with 1(2) step show ?thesis by simp
    next
      case ne: False
      then have "drop B xs \<noteq> []" by (auto simp: batches_Nil)
      then have "B \<le> length xs" by simp
      then have "length (take B xs) = B" by simp
      with 1 False step ne show ?thesis by auto
    qed
  qed
qed

lemma last_batches:
  "0 < B \<Longrightarrow> xs \<noteq> [] \<Longrightarrow>
   length (last (batches B xs)) = (if length xs mod B = 0 then B else length xs mod B)"
proof (induction B xs rule: batches.induct)
  case (1 B xs)
  have step: "batches B xs = take B xs # batches B (drop B xs)"
    using 1(2,3) by (simp add: batches_step)
  show ?case
  proof (cases "drop B xs = []")
    case True
    then have le: "length xs \<le> B" by simp
    have "0 < length xs" using 1(3) by simp
    with le show ?thesis
      using True step by (cases "length xs = B") (simp_all add: batches_Nil)
  next
    case False
    then have gt: "B < length xs" by simp
    have ne: "batches B (drop B xs) \<noteq> []"
      using False 1(2) by (simp add: batches_step)
    have "length (last (batches B (drop B xs)))
            = (if length (drop B xs) mod B = 0 then B else length (drop B xs) mod B)"
      using 1 False by simp
    moreover have "length (drop B xs) mod B = length xs mod B"
      using gt by (simp add: le_mod_geq)
    ultimately show ?thesis
      using step ne by simp
  qed
qed

lemma normalize_identity: "normalize_value 0 1 x = x"
  by (simp add: normalize_value_def)


section \<open>Transform pipelines\<close>

lemma setup_stage_transforms:
  "role_transform r (snd (setup_stage adapter stage m)) = role_transform r m"
  by (simp add: setup_stage_run run_static)

text \<open>
  C7: the train pipeline is grayscale conversion to one channel, resize to 256 by 256,
  random rotation bounded by 20 degrees, tensor conversion and normalization with mean 0
  and standard deviation 1, in this order (after \<open>ToPILImage\<close>, which only changes the
  representation of the input); the validation and test pipelines, and the one the predict
  slot is opened with, are the same sequence without the rotation. The pipelines do not
  depend on any argument of the constructor, \<open>input_size\<close> included, and \<open>setup\<close> does
  not change them. With mean 0 and standard deviation 1 the normalization is the identity
  (in exact arithmetic).
\<close>

theorem transform_pipelines:
  "train_transform (init (tr :: 'a) va te isz bs nw pm)
     = [ToPILImage, Grayscale 1, Resize 256 256, RandomRotation 20, ToTensor, Normalize [0] [1]]
   \<and> val_transform (init tr va te isz bs nw pm)
     = filter (\<lambda>t. t \<noteq> RandomRotation 20) (train_transform (init tr va te isz bs nw pm))
   \<and> test_transform (init tr va te isz bs nw pm) = val_transform (init tr va te isz bs nw pm)
   \<and> role_transform Predict (init tr va te isz bs nw pm)
     = val_transform (init tr va te isz bs nw pm)
   \<and> (\<forall>r (tr' :: 'a) va' te' isz' bs' nw' pm'.
        role_transform r (init tr' va' te' isz' bs' nw' pm')
          = role_transform r (init tr va te isz bs nw pm))
   \<and> (\<forall>r adapter stage.
        role_transform r (snd (setup_stage adapter stage (init tr va te isz bs nw pm)))
          = role_transform r (init tr va te isz bs nw pm))
   \<and> normalize_value 0 1 x = x"
proof (intro conjI allI)
  fix r :: role and tr' va' te' :: 'a and isz' bs' nw' pm'
  show "role_transform r (init tr' va' te' isz' bs' nw' pm')
          = role_transform r (init tr va te isz bs nw pm)"
    by (cases r) (simp_all add: init_def)
next
  fix r :: role and adapter :: "'a adapter" and stage
  show "role_transform r (snd (setup_stage adapter stage (init tr va te isz bs nw pm)))
          = role_transform r (init tr va te isz bs nw pm)"
    by (rule setup_stage_transforms)
qed (simp_all add: init_def normalize_value_def)

section \<open>Loaders\<close>

text \<open>
  C8, as the code has it: the loader getters check nothing. Each passes the content of its
  slot, \<open>None\<close> while the partition is unresolved, together with the fixed configuration
  to the \<open>DataLoader\<close> constructor, and returns whatever the constructor returns: the
  request fails only if that constructor does.
\<close>

theorem loader_getters_unchecked:
  "(data_train m = None \<longrightarrow>
      train_dataloader DataLoader m =
        DataLoader \<lparr> dataset = None, batch_size = hp_batch_size (hparams m),
                     num_workers = hp_num_workers (hparams m),
                     pin_memory = hp_pin_memory (hparams m), shuffle = True \<rparr>)
   \<and> (data_val m = None \<longrightarrow>
      val_dataloader DataLoader m =
        DataLoader \<lparr> dataset = None, batch_size = hp_batch_size (hparams m),
                     num_workers = hp_num_workers (hparams m),
                     pin_memory = hp_pin_memory (hparams m), shuffle = False \<rparr>)
   \<and> (data_test m = None \<longrightarrow>
      test_dataloader DataLoader m =
        DataLoader \<lparr> dataset = None, batch_size = hp_batch_size (hparams m),
                     num_workers = hp_num_workers (hparams m),
                     pin_memory = hp_pin_memory (hparams m), shuffle = False \<rparr>)"
  by (simp add: train_dataloader_def val_dataloader_def test_dataloader_def)

theorem loader_getters_unchecked_witness:
  "data_train (init_default (10::nat) 5 3) = None
   \<and> data_val (init_default (10::nat) 5 3) = None
   \<and> data_test (init_default (10::nat) 5 3) = None
   \<and> train_dataloader Inr (init_default (10::nat) 5 3) =
       (Inr \<lparr> dataset = None, batch_size = 64, num_workers = 0, pin_memory = False,
              shuffle = True \<rparr> :: exn + nat loader_args)
   \<and> val_dataloader Inr (init_default (10::nat) 5 3) =
       (Inr \<lparr> dataset = None, batch_size = 64, num_workers = 0, pin_memory = False,
              shuffle = False \<rparr> :: exn + nat loader_args)
   \<and> test_dataloader Inr (init_default (10::nat) 5 3) =
       (Inr \<lparr> dataset = None, batch_size = 64, num_workers = 0, pin_memory = False,
              shuffle = False \<rparr> :: exn + nat loader_args)"
  using loader_getters_unchecked
    [of "init_default (10::nat) 5 3" "Inr :: nat loader_args \<Rightarrow> exn + nat loader_args"]
  by (simp add: init_default_def init_def)

text \<open>
  C8, as stated, fails: with a constructor that accepts its arguments, requesting the
  validation loader of a new instance returns a loader over \<open>None\<close>.
\<close>

theorem loader_unresolved_counterexample:
  "data_val (init_default (10::nat) 5 3) = None
   \<and> val_dataloader Inr (init_default (10::nat) 5 3) =
       (Inr \<lparr> dataset = None, batch_size = 64, num_workers = 0, pin_memory = False,
              shuffle = False \<rparr> :: exn + nat loader_args)"
  by (simp add: val_dataloader_def init_default_def init_def)

text \<open>
  C5: the train getter passes \<open>shuffle=True\<close>, the validation and test getters pass
  \<open>shuffle=False\<close>. Hence every full iteration of a validation or test loader yields the
  samples in insertion order, whatever the restart and the random source, while an
  iteration of the train loader yields them in the order the random source draws for that
  restart.
\<close>

theorem shuffle_policy:
  "shuffle (train_dataloader (\<lambda>a. a) m)
   \<and> \<not> shuffle (val_dataloader (\<lambda>a. a) m)
   \<and> \<not> shuffle (test_dataloader (\<lambda>a. a) m)
   \<and> (\<forall>d. 0 < hp_batch_size (hparams m) \<longrightarrow> data_val m = Some d \<longrightarrow>
        map_option concat (iterate perm k (val_dataloader (\<lambda>a. a) m)) = Some [0..<ds_len d])
   \<and> (\<forall>d. 0 < hp_batch_size (hparams m) \<longrightarrow> data_test m = Some d \<longrightarrow>
        map_option concat (iterate perm k (test_dataloader (\<lambda>a. a) m)) = Some [0..<ds_len d])
   \<and> (\<forall>d. 0 < hp_batch_size (hparams m) \<longrightarrow> data_train m = Some d \<longrightarrow>
        map_option concat (iterate perm k (train_dataloader (\<lambda>a. a) m))
          = Some (perm k [0..<ds_len d]))"
  by (simp add: train_dataloader_def val_dataloader_def test_dataloader_def iterate_def
      concat_batches)

text \<open>
  C6: for a partition resolved in the train, validation or test slot, of length \<open>N > 0\<close>,
  and a batch size \<open>B > 0\<close>, one full iteration of the loader that the getter of that slot
  builds yields \<open>ceil(N/B)\<close> batches whose sizes sum to \<open>N\<close>; every batch but the last has
  size \<open>B\<close>, and the last has size \<open>N - B * floor(N/B)\<close>, or \<open>B\<close> when \<open>N\<close> is a multiple
  of \<open>B\<close>. The batches are the samples of that partition, in the order of C5.
\<close>

theorem loader_batch_shape:
  assumes "(r, L) \<in> {(Train, train_dataloader (\<lambda>a. a) m),
                      (Validation, val_dataloader (\<lambda>a. a) m),
                      (Test, test_dataloader (\<lambda>a. a) m)}"
    and "slot r m = Some d" and "ds_len d = N" and "0 < N"
    and "hp_batch_size (hparams m) = int B" and "0 < B"
    and "\<forall>xs. length (perm k xs) = length xs"
  shows "\<exists>bs. iterate perm k L = Some bs
           \<and> length bs = (N + B - 1) div B
           \<and> sum_list (map length bs) = N
           \<and> (\<forall>b \<in> set (butlast bs). length b = B)
           \<and> length (last bs) = (if N mod B = 0 then B else N - B * (N div B))
           \<and> concat bs = (if r = Train then perm k [0..<N] else [0..<N])"
proof -
  define xs where "xs = (if shuffle L then perm k [0..<N] else [0..<N])"
  have len: "length xs = N"
    using assms(7) by (simp add: xs_def)
  have bsz: "batch_size L = int B" and ds: "dataset L = Some d"
    and sh: "shuffle L = (r = Train)"
    using assms(1,2,5)
    by (auto simp: train_dataloader_def val_dataloader_def test_dataloader_def)
  have it: "iterate perm k L = Some (batches B xs)"
    using ds assms(3,6) bsz by (simp add: iterate_def xs_def)
  have ne: "xs \<noteq> []"
    using len assms(4) by auto
  have "length (batches B xs) = (N + B - 1) div B"
    using assms(6) len by (simp add: length_batches)
  moreover have "sum_list (map length (batches B xs)) = N"
    using concat_batches [OF assms(6), of xs] len by (metis length_concat)
  moreover have "\<forall>b \<in> set (butlast (batches B xs)). length b = B"
    by (simp add: butlast_batches)
  moreover have "length (last (batches B xs)) = (if N mod B = 0 then B else N - B * (N div B))"
    using last_batches [OF assms(6) ne] len by (simp add: minus_mult_div_eq_mod)
  moreover have "concat (batches B xs) = (if r = Train then perm k [0..<N] else [0..<N])"
    using concat_batches [OF assms(6), of xs] sh by (simp add: xs_def)
  ultimately show ?thesis
    using it by simp
qed

section \<open>Properties of \<open>setup\<close>\<close>

lemma outcome_None_iff:
  "outcome adapter m r = None
     \<longleftrightarrow> (\<exists>n. 0 < n \<and> adapter (role_source r m) (role_transform r m) = Inr n)"
  by (auto simp: outcome_def split: sum.splits)

lemma fst_call_of: "fst (call_of m r) = r"
  by (simp add: call_of_def)

lemma setup_log:
  "adapter_log (snd (setup_stage adapter stage m))
     = adapter_log m @ map (call_of m) (attempted adapter m (plan stage m))"
  by (simp add: setup_stage_run run_log)

lemma new_calls_setup:
  "new_calls m (snd (setup_stage adapter stage m))
     = map (call_of m) (attempted adapter m (plan stage m))"
  by (simp add: new_calls_def setup_log)

lemma roles_new_calls:
  "fst ` set (new_calls m (snd (setup_stage adapter stage m)))
     = set (attempted adapter m (plan stage m))"
  by (simp add: new_calls_setup image_image fst_call_of)

lemma setup_fst:
  "fst (setup_stage adapter stage m) =
     (if attempted adapter m (plan stage m) = [] then None
      else outcome adapter m (last (attempted adapter m (plan stage m))))"
  by (simp add: setup_stage_run run_fst)

lemma setup_slot_other:
  "r \<notin> set (attempted adapter m (plan stage m)) \<Longrightarrow>
   slot r (snd (setup_stage adapter stage m)) = slot r m"
  by (simp add: setup_stage_run run_slot_other)

lemma attempted_plan: "set (attempted adapter m (plan stage m)) \<subseteq> set (plan stage m)"
  by (rule attempted_subset)

lemma plan_stage_roles: "set (plan stage m) \<subseteq> set (stage_roles stage)"
  by (auto simp: plan_def)

lemma resolved_not_planned:
  "r \<noteq> Predict \<Longrightarrow> slot r m = Some d \<Longrightarrow> r \<notin> set (plan stage m)"
  by (cases r) (auto simp: plan_def)

lemma planned_unresolved: "r \<in> set (plan stage m) \<Longrightarrow> unresolved m r"
  by (simp add: plan_def)

lemma setup_keeps_resolved:
  assumes "r \<noteq> Predict" "slot r m = Some d"
  shows "slot r (snd (setup_stage adapter stage m)) = Some d
         \<and> r \<notin> set (attempted adapter m (plan stage m))"
proof -
  have "r \<notin> set (attempted adapter m (plan stage m))"
    using resolved_not_planned [OF assms] attempted_plan by blast
  then show ?thesis
    using assms(2) by (simp add: setup_slot_other)
qed

lemma setup_calls_keep:
  assumes "r \<noteq> Predict" "slot r m = Some d"
  shows "\<exists>xs. adapter_log (setup_calls adapter stages m) = adapter_log m @ xs
              \<and> r \<notin> fst ` set xs
              \<and> slot r (setup_calls adapter stages m) = Some d"
  using assms(2)
proof (induction stages arbitrary: m)
  case Nil
  then show ?case by simp
next
  case (Cons stage stages)
  let ?m1 = "snd (setup_stage adapter stage m)"
  let ?ys = "map (call_of m) (attempted adapter m (plan stage m))"
  from setup_keeps_resolved [OF assms(1) Cons.prems, of adapter stage]
  have s1: "slot r ?m1 = Some d" and nr: "r \<notin> set (attempted adapter m (plan stage m))"
    by simp_all
  from Cons.IH [OF s1]
  obtain xs where xs: "adapter_log (setup_calls adapter stages ?m1) = adapter_log ?m1 @ xs"
    "r \<notin> fst ` set xs" "slot r (setup_calls adapter stages ?m1) = Some d"
    by blast
  have "adapter_log (setup_calls adapter (stage # stages) m) = adapter_log m @ (?ys @ xs)"
    using xs(1) by (simp add: setup_log)
  moreover have "r \<notin> fst ` set (?ys @ xs)"
    using nr xs(2) by (simp add: image_Un image_image fst_call_of)
  moreover have "slot r (setup_calls adapter (stage # stages) m) = Some d"
    using xs(3) by simp
  ultimately show ?case by blast
qed

text \<open>
  C1, as the code has it: in every sequence of \<open>setup\<close> calls, with any stages and whether
  or not a call raises, once the train, validation or test slot holds a dataset no later
  call constructs a dataset for that slot or replaces the stored object. The log only
  grows, so the calls made by the sequence are the entries after the old ones. (The
  predict slot has no guard of its own.)
\<close>

theorem setup_calls_idempotent:
  assumes "r \<noteq> Predict" and "slot r m = Some d"
  shows "slot r (setup_calls adapter stages m) = Some d
         \<and> take (length (adapter_log m)) (adapter_log (setup_calls adapter stages m))
             = adapter_log m
         \<and> r \<notin> fst ` set (new_calls m (setup_calls adapter stages m))"
proof -
  from setup_calls_keep [OF assms, of adapter stages]
  obtain xs where "adapter_log (setup_calls adapter stages m) = adapter_log m @ xs"
    "r \<notin> fst ` set xs" "slot r (setup_calls adapter stages m) = Some d"
    by blast
  then show ?thesis
    by (simp add: new_calls_def)
qed

lemma attempted_ok_all:
  "(\<forall>r \<in> set (attempted adapter m rs). outcome adapter m r = None) \<Longrightarrow>
   attempted adapter m rs = rs"
  by (induction rs) (auto split: if_splits)

lemma attempted_last_decides:
  assumes "attempted adapter m rs \<noteq> []"
    and "outcome adapter m (last (attempted adapter m rs)) = None"
  shows "attempted adapter m rs = rs"
proof (rule attempted_ok_all, rule ballI)
  fix r assume "r \<in> set (attempted adapter m rs)"
  then have "r \<in> set (butlast (attempted adapter m rs)) \<or> r = last (attempted adapter m rs)"
    using assms(1) by (metis append_butlast_last_id in_set_conv_decomp_first
        in_set_butlast_appendI rotate1.simps(2) set_ConsD set_rotate1)
  then show "outcome adapter m r = None"
    using assms(2) attempted_butlast_ok by blast
qed

lemma setup_ok_all_attempted:
  assumes "fst (setup_stage adapter stage m) = None"
  shows "attempted adapter m (plan stage m) = plan stage m
         \<and> (\<forall>r \<in> set (plan stage m). outcome adapter m r = None)"
proof (cases "attempted adapter m (plan stage m) = []")
  case True
  then have "plan stage m = []"
    by (cases "plan stage m") simp_all
  then show ?thesis by simp
next
  case False
  with assms have ok: "outcome adapter m (last (attempted adapter m (plan stage m))) = None"
    by (simp add: setup_fst)
  have eq: "attempted adapter m (plan stage m) = plan stage m"
    using False ok by (rule attempted_last_decides)
  have "\<forall>r \<in> set (attempted adapter m (plan stage m)). outcome adapter m r = None"
  proof
    fix r assume "r \<in> set (attempted adapter m (plan stage m))"
    then have "r \<in> set (butlast (attempted adapter m (plan stage m)))
               \<or> r = last (attempted adapter m (plan stage m))"
      using False by (metis append_butlast_last_id in_set_conv_decomp_first
          in_set_butlast_appendI rotate1.simps(2) set_ConsD set_rotate1)
    then show "outcome adapter m r = None"
      using ok attempted_butlast_ok by blast
  qed
  with eq show ?thesis by simp
qed

lemma setup_slot_attempted:
  assumes "i < length (attempted adapter m (plan stage m))"
    and "attempted adapter m (plan stage m) ! i = r"
    and "adapter (role_source r m) (role_transform r m) = Inr n"
  shows "slot r (snd (setup_stage adapter stage m)) =
           Some \<lparr> ds_id = length (adapter_log m) + i, data_dir = role_source r m,
                  ds_transform = role_transform r m, ds_len = n \<rparr>"
proof -
  have "distinct (plan stage m)" by (rule plan_distinct)
  from run_slot_attempted [OF this assms(1)] show ?thesis
    using assms(2,3) by (simp add: setup_stage_run)
qed


lemma in_set_nth: "x \<in> set xs \<Longrightarrow> \<exists>i < length xs. xs ! i = x"
  by (simp add: in_set_conv_nth)

lemma outcome_failed: "outcome adapter m r \<noteq> None \<longleftrightarrow> call_failed adapter (call_of m r)"
  by (simp add: outcome_def call_failed_def call_of_def split: sum.splits)

lemma attempted_take:
  "attempted adapter m rs = take (length (attempted adapter m rs)) rs"
  by (induction rs) auto

lemma attempted_nonempty: "rs \<noteq> [] \<Longrightarrow> attempted adapter m rs \<noteq> []"
  by (cases rs) simp_all

lemma attempted_short_failed:
  assumes "length (attempted adapter m rs) < length rs"
  shows "outcome adapter m (last (attempted adapter m rs)) \<noteq> None"
proof
  assume ok: "outcome adapter m (last (attempted adapter m rs)) = None"
  from assms have "rs \<noteq> []" by auto
  then have "attempted adapter m rs \<noteq> []" by (rule attempted_nonempty)
  then have "attempted adapter m rs = rs" using ok by (rule attempted_last_decides)
  with assms show False by simp
qed

lemma setup_calls_made:
  "new_calls m (snd (setup_stage adapter stage m))
     = take (length (new_calls m (snd (setup_stage adapter stage m))))
         (map (\<lambda>r. (r, role_source r m, role_transform r m))
            (filter (unresolved m) (stage_roles stage)))
   \<and> (filter (unresolved m) (stage_roles stage) \<noteq> [] \<longrightarrow>
        new_calls m (snd (setup_stage adapter stage m)) \<noteq> [])
   \<and> (length (new_calls m (snd (setup_stage adapter stage m)))
          < length (filter (unresolved m) (stage_roles stage)) \<longrightarrow>
        call_failed adapter (last (new_calls m (snd (setup_stage adapter stage m)))))
   \<and> (\<forall>i r src tf n.
        i < length (new_calls m (snd (setup_stage adapter stage m))) \<longrightarrow>
        new_calls m (snd (setup_stage adapter stage m)) ! i = (r, src, tf) \<longrightarrow>
        adapter src tf = Inr n \<longrightarrow>
        slot r (snd (setup_stage adapter stage m))
          = Some \<lparr> ds_id = length (adapter_log m) + i, data_dir = src,
                   ds_transform = tf, ds_len = n \<rparr>)
   \<and> (fst (setup_stage adapter stage m) = None \<longrightarrow>
        new_calls m (snd (setup_stage adapter stage m))
          = map (\<lambda>r. (r, role_source r m, role_transform r m))
              (filter (unresolved m) (stage_roles stage))
        \<and> (\<forall>c \<in> set (new_calls m (snd (setup_stage adapter stage m))).
              \<not> call_failed adapter c))"
proof -
  let ?att = "attempted adapter m (plan stage m)"
  let ?m' = "snd (setup_stage adapter stage m)"
  let ?P = "filter (unresolved m) (stage_roles stage)"
  have P: "?P = plan stage m" by (simp add: plan_def)
  have f: "(\<lambda>r. (r, role_source r m, role_transform r m)) = call_of m"
    by (rule ext) (simp add: call_of_def)
  have new: "new_calls m ?m' = map (call_of m) ?att"
    by (rule new_calls_setup)
  have len: "length (new_calls m ?m') = length ?att"
    by (simp add: new)
  have 1: "new_calls m ?m' = take (length (new_calls m ?m')) (map (call_of m) (plan stage m))"
    unfolding len take_map new using attempted_take [of adapter m "plan stage m"] by simp
  have 2: "plan stage m \<noteq> [] \<longrightarrow> new_calls m ?m' \<noteq> []"
    using attempted_nonempty [of "plan stage m" adapter m] by (simp add: new)
  have 3: "length (new_calls m ?m') < length (plan stage m) \<longrightarrow>
           call_failed adapter (last (new_calls m ?m'))"
  proof
    assume "length (new_calls m ?m') < length (plan stage m)"
    then have lt: "length ?att < length (plan stage m)" by (simp add: len)
    then have "outcome adapter m (last ?att) \<noteq> None" by (rule attempted_short_failed)
    moreover have "?att \<noteq> []"
      using lt attempted_nonempty [of "plan stage m" adapter m] by auto
    ultimately show "call_failed adapter (last (new_calls m ?m'))"
      using outcome_failed [of adapter m "last ?att"] by (simp add: new last_map)
  qed
  have 4: "slot r' ?m' = Some \<lparr> ds_id = length (adapter_log m) + i, data_dir = src,
                          ds_transform = tf, ds_len = n \<rparr>"
    if "i < length (new_calls m ?m')" "new_calls m ?m' ! i = (r', src, tf)"
      "adapter src tf = Inr n" for i r' src tf n
  proof -
    from that(1) have i: "i < length ?att"
      by (simp add: len)
    with that(2) have "call_of m (?att ! i) = (r', src, tf)"
      by (simp add: new)
    then have "?att ! i = r'" "src = role_source r' m" "tf = role_transform r' m"
      by (auto simp: call_of_def)
    with setup_slot_attempted [OF i, of r' n] that(3) show ?thesis
      by simp
  qed
  have 5: "fst (setup_stage adapter stage m) = None \<longrightarrow>
        new_calls m ?m' = map (call_of m) (plan stage m)
        \<and> (\<forall>c \<in> set (new_calls m ?m'). \<not> call_failed adapter c)"
  proof
    assume "fst (setup_stage adapter stage m) = None"
    from setup_ok_all_attempted [OF this]
    have a: "?att = plan stage m" and ok: "\<forall>r \<in> set (plan stage m). outcome adapter m r = None"
      by simp_all
    have "\<not> call_failed adapter c" if "c \<in> set (new_calls m ?m')" for c
    proof -
      from that a obtain r where "r \<in> set (plan stage m)" "c = call_of m r"
        by (auto simp: new)
      with ok outcome_failed [of adapter m r] show ?thesis by simp
    qed
    with a show "new_calls m ?m' = map (call_of m) (plan stage m)
        \<and> (\<forall>c \<in> set (new_calls m ?m'). \<not> call_failed adapter c)"
      by (simp add: new)
  qed
  from 1 2 3 4 5 show ?thesis
    unfolding P f by blast
qed

text \<open>
  C2: stage scoping. \<open>stage_roles\<close> gives the slots a stage is concerned with: train for
  \<open>'train'\<close>; validation and test for \<open>'validation'\<close>; predict for \<open>'predict'\<close>; train,
  validation and test for \<open>None\<close>. A call leaves every other slot unchanged and constructs
  nothing for it. \<open>setup('predict')\<close> does nothing when the test slot is filled, and otherwise
  fills the predict slot from the test source with the test pipeline. If every source of
  the stage opens to a non-empty dataset, the call returns normally.

  The calls a \<open>setup\<close> makes are exactly these: it goes through the roles of the stage whose
  guard slot is empty, in order, and constructs a dataset for each from that role's source
  and pipeline, up to the first call that fails; so it makes at least the first of them,
  and stops short only after a failed call. Every dataset a call returns is in the slot of
  its role afterwards, as the object of that call. On normal return every such role has
  been opened, none of the calls failed, and so all these slots hold the dataset opened from
  their source with their pipeline.
\<close>

theorem setup_stage_scoping:
  "(stage_roles (Some ''train'') = [Train]
   \<and> stage_roles (Some ''validation'') = [Validation, Test]
   \<and> stage_roles (Some ''predict'') = [Predict]
   \<and> stage_roles None = [Train, Validation, Test]
   \<and> (\<forall>r. r \<notin> set (stage_roles stage) \<longrightarrow>
         slot r (snd (setup_stage adapter stage m)) = slot r m
         \<and> r \<notin> fst ` set (new_calls m (snd (setup_stage adapter stage m))))
   \<and> (\<forall>c \<in> set (new_calls m (snd (setup_stage adapter stage m))).
         slot (if fst c = Predict then Test else fst c) m = None
         \<and> c = (fst c, role_source (fst c) m, role_transform (fst c) m))
   \<and> (fst (setup_stage adapter stage m) = None \<longrightarrow>
         (\<forall>r \<in> set (stage_roles stage). r \<noteq> Predict \<longrightarrow>
            slot r (snd (setup_stage adapter stage m)) \<noteq> None))
   \<and> (stage = Some ''predict'' \<longrightarrow> data_test m \<noteq> None \<longrightarrow>
         setup_stage adapter stage m = (None, m))
   \<and> (\<forall>n. stage = Some ''predict'' \<longrightarrow> data_test m = None \<longrightarrow>
         adapter (ds_test m) (test_transform m) = Inr n \<longrightarrow>
         snd (setup_stage adapter stage m) =
           m\<lparr> adapter_log := adapter_log m @ [(Predict, ds_test m, test_transform m)],
               data_predict := Some \<lparr> ds_id = length (adapter_log m), data_dir = ds_test m,
                                      ds_transform = test_transform m, ds_len = n \<rparr> \<rparr>)
   \<and> ((\<forall>r \<in> set (stage_roles stage).
          \<exists>n. 0 < n \<and> adapter (role_source r m) (role_transform r m) = Inr n) \<longrightarrow>
         fst (setup_stage adapter stage m) = None))
   \<and> (new_calls m (snd (setup_stage adapter stage m))
     = take (length (new_calls m (snd (setup_stage adapter stage m))))
         (map (\<lambda>r. (r, role_source r m, role_transform r m))
            (filter (unresolved m) (stage_roles stage)))
   \<and> (filter (unresolved m) (stage_roles stage) \<noteq> [] \<longrightarrow>
        new_calls m (snd (setup_stage adapter stage m)) \<noteq> [])
   \<and> (length (new_calls m (snd (setup_stage adapter stage m)))
          < length (filter (unresolved m) (stage_roles stage)) \<longrightarrow>
        call_failed adapter (last (new_calls m (snd (setup_stage adapter stage m)))))
   \<and> (\<forall>i r src tf n.
        i < length (new_calls m (snd (setup_stage adapter stage m))) \<longrightarrow>
        new_calls m (snd (setup_stage adapter stage m)) ! i = (r, src, tf) \<longrightarrow>
        adapter src tf = Inr n \<longrightarrow>
        slot r (snd (setup_stage adapter stage m))
          = Some \<lparr> ds_id = length (adapter_log m) + i, data_dir = src,
                   ds_transform = tf, ds_len = n \<rparr>)
   \<and> (fst (setup_stage adapter stage m) = None \<longrightarrow>
        new_calls m (snd (setup_stage adapter stage m))
          = map (\<lambda>r. (r, role_source r m, role_transform r m))
              (filter (unresolved m) (stage_roles stage))
        \<and> (\<forall>c \<in> set (new_calls m (snd (setup_stage adapter stage m))).
              \<not> call_failed adapter c)))"
  (is "?slots \<and> ?calls")
proof (rule conjI)
  show ?calls by (rule setup_calls_made)
  show ?slots
  proof (intro conjI allI impI ballI)
    fix r assume "r \<notin> set (stage_roles stage)"
    then have "r \<notin> set (attempted adapter m (plan stage m))"
      using attempted_plan plan_stage_roles by blast
    then show "slot r (snd (setup_stage adapter stage m)) = slot r m"
      and "r \<notin> fst ` set (new_calls m (snd (setup_stage adapter stage m)))"
      by (simp_all add: setup_slot_other roles_new_calls)
  next
    fix c assume c: "c \<in> set (new_calls m (snd (setup_stage adapter stage m)))"
    then obtain r where r: "r \<in> set (attempted adapter m (plan stage m))" "c = call_of m r"
      by (auto simp: new_calls_setup)
    then have "unresolved m r"
      using attempted_plan planned_unresolved by blast
    then show "slot (if fst c = Predict then Test else fst c) m = None"
      using r(2) by (cases r) (simp_all add: call_of_def)
    show "c = (fst c, role_source (fst c) m, role_transform (fst c) m)"
      using r(2) by (simp add: call_of_def)
  next
    fix r
    assume ok: "fst (setup_stage adapter stage m) = None"
      and r: "r \<in> set (stage_roles stage)" "r \<noteq> Predict"
    show "slot r (snd (setup_stage adapter stage m)) \<noteq> None"
    proof (cases "r \<in> set (plan stage m)")
      case True
      from setup_ok_all_attempted [OF ok] True
      have att: "r \<in> set (attempted adapter m (plan stage m))"
        and "outcome adapter m r = None"
        by simp_all
      then obtain n where n: "adapter (role_source r m) (role_transform r m) = Inr n"
        by (auto simp: outcome_None_iff)
      from in_set_nth [OF att] obtain i where
        "i < length (attempted adapter m (plan stage m))"
        "attempted adapter m (plan stage m) ! i = r"
        by blast
      from setup_slot_attempted [OF this n] show ?thesis by simp
    next
      case False
      with r(1) have "\<not> unresolved m r"
        by (simp add: plan_def)
      with r(2) have "slot r m \<noteq> None"
        by (cases r) simp_all
      moreover have "r \<notin> set (attempted adapter m (plan stage m))"
        using False attempted_plan by blast
      ultimately show ?thesis
        by (simp add: setup_slot_other)
    qed
  next
    assume "stage = Some ''predict''" "data_test m \<noteq> None"
    then have "plan stage m = []"
      by (auto simp: plan_def stage_roles_def)
    then show "setup_stage adapter stage m = (None, m)"
      by (simp add: setup_stage_run)
  next
    fix n
    assume "stage = Some ''predict''" "data_test m = None"
      and n: "adapter (ds_test m) (test_transform m) = Inr n"
    then have "plan stage m = [Predict]"
      by (simp add: plan_def stage_roles_def)
    then have "setup_stage adapter stage m = resolve adapter Predict m"
      by (simp add: setup_stage_run run_single del: run.simps(2))
    then show "snd (setup_stage adapter stage m) =
             m\<lparr> adapter_log := adapter_log m @ [(Predict, ds_test m, test_transform m)],
                 data_predict := Some \<lparr> ds_id = length (adapter_log m), data_dir = ds_test m,
                                        ds_transform = test_transform m, ds_len = n \<rparr> \<rparr>"
      using n by (simp add: resolve_def call_of_def Let_def)
  next
    assume all: "\<forall>r \<in> set (stage_roles stage).
            \<exists>n. 0 < n \<and> adapter (role_source r m) (role_transform r m) = Inr n"
    show "fst (setup_stage adapter stage m) = None"
    proof (cases "attempted adapter m (plan stage m) = []")
      case True
      then show ?thesis by (simp add: setup_fst)
    next
      case False
      then have "last (attempted adapter m (plan stage m)) \<in> set (stage_roles stage)"
        using attempted_plan plan_stage_roles last_in_set by blast
      with all have "outcome adapter m (last (attempted adapter m (plan stage m))) = None"
        by (simp add: outcome_None_iff)
      with False show ?thesis by (simp add: setup_fst)
    qed
  qed (simp_all add: stage_roles_def)
qed


section \<open>Failures of \<open>setup\<close>\<close>

lemma last_or_butlast: "x \<in> set xs \<Longrightarrow> x \<in> set (butlast xs) \<or> x = last xs"
  by (induction xs) (auto split: if_splits)

lemma failed_is_last:
  assumes "r \<in> set (attempted adapter m rs)" and "outcome adapter m r \<noteq> None"
  shows "last (attempted adapter m rs) = r"
  using last_or_butlast [OF assms(1)] assms(2) attempted_butlast_ok by metis

lemma setup_static:
  "role_source r (snd (setup_stage adapter stage m)) = role_source r m"
  "role_transform r (snd (setup_stage adapter stage m)) = role_transform r m"
  "hparams (snd (setup_stage adapter stage m)) = hparams m"
  by (simp_all add: setup_stage_run run_static)

lemma setup_slot_attempted_case:
  assumes "i < length (attempted adapter m (plan stage m))"
  shows "slot (attempted adapter m (plan stage m) ! i) (snd (setup_stage adapter stage m)) =
           (case adapter (role_source (attempted adapter m (plan stage m) ! i) m)
                         (role_transform (attempted adapter m (plan stage m) ! i) m) of
              Inl e \<Rightarrow> slot (attempted adapter m (plan stage m) ! i) m
            | Inr n \<Rightarrow> Some \<lparr> ds_id = length (adapter_log m) + i,
                              data_dir = role_source (attempted adapter m (plan stage m) ! i) m,
                              ds_transform = role_transform (attempted adapter m (plan stage m) ! i) m,
                              ds_len = n \<rparr>)"
proof -
  have "distinct (plan stage m)" by (rule plan_distinct)
  from run_slot_attempted [OF this assms] show ?thesis
    by (simp add: setup_stage_run)
qed

lemma setup_keeps_filled:
  assumes "slot r m = Some d"
  shows "slot r (snd (setup_stage adapter stage m)) \<noteq> None"
proof (cases "r \<in> set (attempted adapter m (plan stage m))")
  case True
  from in_set_nth [OF this] obtain i where i: "i < length (attempted adapter m (plan stage m))"
    and r: "attempted adapter m (plan stage m) ! i = r"
    by blast
  from setup_slot_attempted_case [OF i] r assms show ?thesis
    by (simp split: sum.splits)
next
  case False
  with assms show ?thesis by (simp add: setup_slot_other)
qed

text \<open>
  C3, as the code has it: when a constructor call of a \<open>setup\<close> call returns a dataset of
  length 0, \<open>setup\<close> raises \<open>ValueError\<close> with the message naming that role; the call is
  the last one of that \<open>setup\<close> call, and no role is constructed twice in one call. The
  empty dataset has been assigned to the role's slot before the check and stays there;
  the loader getters check nothing, and hand whatever their slot holds to \<open>DataLoader\<close>.
\<close>

theorem emptiness_gate:
  assumes "(r, src, tf) \<in> set (new_calls m (snd (setup_stage adapter stage m)))"
    and "adapter src tf = Inr 0"
  shows "fst (setup_stage adapter stage m) = Some (ValueError (empty_message r))
         \<and> last (adapter_log (snd (setup_stage adapter stage m))) = (r, src, tf)
         \<and> distinct (map fst (new_calls m (snd (setup_stage adapter stage m))))
         \<and> (\<exists>i. slot r (snd (setup_stage adapter stage m))
                  = Some \<lparr> ds_id = i, data_dir = src, ds_transform = tf, ds_len = 0 \<rparr>)
         \<and> (\<forall>d. data_train (snd (setup_stage adapter stage m)) = Some d \<longrightarrow>
              train_dataloader DataLoader (snd (setup_stage adapter stage m)) =
                DataLoader \<lparr> dataset = Some d, batch_size = hp_batch_size (hparams m),
                             num_workers = hp_num_workers (hparams m),
                             pin_memory = hp_pin_memory (hparams m), shuffle = True \<rparr>)
         \<and> (\<forall>d. data_val (snd (setup_stage adapter stage m)) = Some d \<longrightarrow>
              val_dataloader DataLoader (snd (setup_stage adapter stage m)) =
                DataLoader \<lparr> dataset = Some d, batch_size = hp_batch_size (hparams m),
                             num_workers = hp_num_workers (hparams m),
                             pin_memory = hp_pin_memory (hparams m), shuffle = False \<rparr>)
         \<and> (\<forall>d. data_test (snd (setup_stage adapter stage m)) = Some d \<longrightarrow>
              test_dataloader DataLoader (snd (setup_stage adapter stage m)) =
                DataLoader \<lparr> dataset = Some d, batch_size = hp_batch_size (hparams m),
                             num_workers = hp_num_workers (hparams m),
                             pin_memory = hp_pin_memory (hparams m), shuffle = False \<rparr>)"
proof -
  let ?att = "attempted adapter m (plan stage m)"
  let ?m' = "snd (setup_stage adapter stage m)"
  from assms(1) have att: "r \<in> set ?att" and src: "src = role_source r m"
    and tf: "tf = role_transform r m"
    by (auto simp: new_calls_setup call_of_def)
  have out: "outcome adapter m r = Some (ValueError (empty_message r))"
    using assms(2) src tf by (simp add: outcome_def)
  then have last: "last ?att = r"
    using att by (intro failed_is_last) simp_all
  have ne: "?att \<noteq> []"
    using att by auto
  have 1: "fst (setup_stage adapter stage m) = Some (ValueError (empty_message r))"
    using ne last out by (simp add: setup_fst)
  have 2: "last (adapter_log ?m') = (r, src, tf)"
    using ne last src tf by (simp add: setup_log last_map call_of_def)
  have "map fst (new_calls m ?m') = ?att"
    by (simp add: new_calls_setup fst_call_of cong: map_cong)
  then have 3: "distinct (map fst (new_calls m ?m'))"
    using attempted_distinct [OF plan_distinct] by simp
  from in_set_nth [OF att] obtain i where "i < length ?att" "?att ! i = r"
    by blast
  from setup_slot_attempted [OF this] assms(2) src tf
  have 4: "\<exists>i. slot r ?m' = Some \<lparr> ds_id = i, data_dir = src, ds_transform = tf, ds_len = 0 \<rparr>"
    by blast
  show ?thesis
    using 1 2 3 4
    by (simp add: train_dataloader_def val_dataloader_def test_dataloader_def setup_static)
qed

text \<open>
  C4: when a constructor call of a \<open>setup\<close> call fails (it raises, or returns an empty
  dataset), the whole \<open>setup\<close> call fails with that exception and makes no further call;
  every dataset constructed during the call is in its slot afterwards, so nothing is rolled
  back; and every slot that was filled before the call is still filled (train, validation
  and test with the same object).
\<close>

theorem setup_failure_keeps_resolved:
  assumes "c \<in> set (new_calls m (snd (setup_stage adapter stage m)))"
    and "call_failed adapter c"
  shows "fst (setup_stage adapter stage m)
           = Some (case c of (r, src, tf) \<Rightarrow>
                     (case adapter src tf of Inl e \<Rightarrow> e
                      | Inr n \<Rightarrow> ValueError (empty_message r)))
         \<and> last (new_calls m (snd (setup_stage adapter stage m))) = c
         \<and> (\<forall>i r src tf n.
               i < length (new_calls m (snd (setup_stage adapter stage m))) \<longrightarrow>
               new_calls m (snd (setup_stage adapter stage m)) ! i = (r, src, tf) \<longrightarrow>
               adapter src tf = Inr n \<longrightarrow>
               slot r (snd (setup_stage adapter stage m))
                 = Some \<lparr> ds_id = length (adapter_log m) + i, data_dir = src,
                          ds_transform = tf, ds_len = n \<rparr>)
         \<and> (\<forall>r d. slot r m = Some d \<longrightarrow>
               (if r = Predict then slot r (snd (setup_stage adapter stage m)) \<noteq> None
                else slot r (snd (setup_stage adapter stage m)) = Some d))"
proof -
  let ?att = "attempted adapter m (plan stage m)"
  let ?m' = "snd (setup_stage adapter stage m)"
  from assms(1) obtain r where att: "r \<in> set ?att" and c: "c = call_of m r"
    by (auto simp: new_calls_setup)
  have out: "outcome adapter m r \<noteq> None"
    using assms(2) c outcome_failed [of adapter m r] by blast
  then have last: "last ?att = r"
    using att by (intro failed_is_last) simp_all
  have ne: "?att \<noteq> []"
    using att by auto
  have "fst (setup_stage adapter stage m) = outcome adapter m r"
    using ne last by (simp add: setup_fst)
  moreover have "outcome adapter m r
           = Some (case c of (r, src, tf) \<Rightarrow>
                     (case adapter src tf of Inl e \<Rightarrow> e
                      | Inr n \<Rightarrow> ValueError (empty_message r)))"
    using out by (auto simp: c call_of_def outcome_def split: sum.splits if_splits)
  ultimately have 1: "fst (setup_stage adapter stage m)
           = Some (case c of (r, src, tf) \<Rightarrow>
                     (case adapter src tf of Inl e \<Rightarrow> e
                      | Inr n \<Rightarrow> ValueError (empty_message r)))"
    by simp
  have 2: "last (new_calls m ?m') = c"
    using ne last c by (simp add: new_calls_setup last_map)
  have 3: "slot r' ?m' = Some \<lparr> ds_id = length (adapter_log m) + i, data_dir = src,
                          ds_transform = tf, ds_len = n \<rparr>"
    if "i < length (new_calls m ?m')" "new_calls m ?m' ! i = (r', src, tf)"
      "adapter src tf = Inr n" for i r' src tf n
  proof -
    from that(1) have i: "i < length ?att"
      by (simp add: new_calls_setup)
    with that(2) have "call_of m (?att ! i) = (r', src, tf)"
      by (simp add: new_calls_setup)
    then have "?att ! i = r'" "src = role_source r' m" "tf = role_transform r' m"
      by (auto simp: call_of_def)
    with setup_slot_attempted [OF i, of r' n] that(3) show ?thesis
      by simp
  qed
  have 4: "(if r' = Predict then slot r' ?m' \<noteq> None else slot r' ?m' = Some d)"
    if "slot r' m = Some d" for r' d
  proof (cases "r' = Predict")
    case True
    then show ?thesis
      using setup_keeps_filled [OF that, of adapter stage] by (simp del: not_None_eq)
  next
    case False
    then show ?thesis
      using setup_keeps_resolved [OF False that, of adapter stage] by simp
  qed
  from 1 2 3 4 show ?thesis
    by blast
qed

section \<open>The predict slot\<close>




section \<open>Concrete runs\<close>

text \<open>The definitions a concrete run of \<open>setup\<close> unfolds.\<close>

lemmas setup_eval =
  setup_stage_def setup_train_def setup_val_def setup_test_def setup_val_test_def
  setup_predict_def DeepLakeDataset_def init_default_def init_def Let_def

text \<open>
  C1, as stated, fails for the predict role: on a new instance a second \<open>setup('predict')\<close>
  constructs a dataset for the predict slot again and replaces the stored object.
\<close>

theorem setup_repeated_predict_counterexample:
  "data_predict (setup_calls (\<lambda>src tf. Inr src) [Some ''predict''] (init_default (10::nat) 5 3))
     = Some \<lparr> ds_id = 0, data_dir = 3,
              ds_transform = [ToPILImage, Grayscale 1, Resize 256 256, ToTensor, Normalize [0] [1]],
              ds_len = 3 \<rparr>
   \<and> data_predict (setup_calls (\<lambda>src tf. Inr src) [Some ''predict'', Some ''predict'']
        (init_default (10::nat) 5 3))
     = Some \<lparr> ds_id = 1, data_dir = 3,
              ds_transform = [ToPILImage, Grayscale 1, Resize 256 256, ToTensor, Normalize [0] [1]],
              ds_len = 3 \<rparr>
   \<and> map fst (adapter_log (setup_calls (\<lambda>src tf. Inr src) [Some ''predict'', Some ''predict'']
        (init_default (10::nat) 5 3)))
     = [Predict, Predict]"
  by (simp add: setup_eval)

theorem setup_calls_idempotent_witness:
  "Validation \<noteq> Predict
   \<and> slot Validation (snd (setup_stage (\<lambda>src tf. Inr src) (Some ''validation'') (init_default (10::nat) 5 3)))
       = Some \<lparr> ds_id = 0, data_dir = 5,
              ds_transform = [ToPILImage, Grayscale 1, Resize 256 256, ToTensor, Normalize [0] [1]],
              ds_len = 5 \<rparr>
   \<and> slot Validation
        (setup_calls (\<lambda>src tf. Inr src) [Some ''fit'', Some ''validation'', None]
          (snd (setup_stage (\<lambda>src tf. Inr src) (Some ''validation'') (init_default (10::nat) 5 3))))
       = Some \<lparr> ds_id = 0, data_dir = 5,
              ds_transform = [ToPILImage, Grayscale 1, Resize 256 256, ToTensor, Normalize [0] [1]],
              ds_len = 5 \<rparr>
   \<and> Validation \<notin> fst ` set (new_calls
        (snd (setup_stage (\<lambda>src tf. Inr src) (Some ''validation'') (init_default (10::nat) 5 3)))
        (setup_calls (\<lambda>src tf. Inr src) [Some ''fit'', Some ''validation'', None]
          (snd (setup_stage (\<lambda>src tf. Inr src) (Some ''validation'') (init_default (10::nat) 5 3)))))"
proof -
  let ?A = "\<lambda>(src::nat) (tf::pipeline). (Inr src :: exn + nat)"
  let ?m = "snd (setup_stage ?A (Some ''validation'') (init_default (10::nat) 5 3))"
  let ?d = "\<lparr> ds_id = 0, data_dir = 5::nat,
              ds_transform = [ToPILImage, Grayscale 1, Resize 256 256, ToTensor, Normalize [0] [1]],
              ds_len = 5 \<rparr>"
  have s: "slot Validation ?m = Some ?d"
    by (simp add: setup_eval)
  have "Validation \<noteq> Predict" by simp
  from setup_calls_idempotent [OF this s, of ?A "[Some ''fit'', Some ''validation'', None]"] s
  show ?thesis by simp
qed

theorem setup_stage_scoping_witness:
  "setup_stage (\<lambda>src tf. Inr src) (Some ''train'') (init_default (10::nat) 5 3)
     = (None, (init_default 10 5 3)
         \<lparr> adapter_log := [(Train, 10, [ToPILImage, Grayscale 1, Resize 256 256, RandomRotation 20,
                                          ToTensor, Normalize [0] [1]])],
            data_train := Some \<lparr> ds_id = 0, data_dir = 10,
               ds_transform = [ToPILImage, Grayscale 1, Resize 256 256, RandomRotation 20,
                               ToTensor, Normalize [0] [1]],
               ds_len = 10 \<rparr> \<rparr>)
   \<and> fst (setup_stage (\<lambda>src tf. Inr src) None (init_default (10::nat) 5 3)) = None
   \<and> data_train (snd (setup_stage (\<lambda>src tf. Inr src) None (init_default (10::nat) 5 3)))
       = Some \<lparr> ds_id = 0, data_dir = 10,
               ds_transform = [ToPILImage, Grayscale 1, Resize 256 256, RandomRotation 20,
                               ToTensor, Normalize [0] [1]],
               ds_len = 10 \<rparr>
   \<and> data_val (snd (setup_stage (\<lambda>src tf. Inr src) None (init_default (10::nat) 5 3)))
       = Some \<lparr> ds_id = 1, data_dir = 5,
               ds_transform = [ToPILImage, Grayscale 1, Resize 256 256, ToTensor, Normalize [0] [1]],
               ds_len = 5 \<rparr>
   \<and> data_test (snd (setup_stage (\<lambda>src tf. Inr src) None (init_default (10::nat) 5 3)))
       = Some \<lparr> ds_id = 2, data_dir = 3,
               ds_transform = [ToPILImage, Grayscale 1, Resize 256 256, ToTensor, Normalize [0] [1]],
               ds_len = 3 \<rparr>
   \<and> data_predict (snd (setup_stage (\<lambda>src tf. Inr src) None (init_default (10::nat) 5 3))) = None
   \<and> fst (setup_stage (\<lambda>src tf. Inr src) (Some ''validation'') (init_default (10::nat) 5 3)) = None
   \<and> data_train (snd (setup_stage (\<lambda>src tf. Inr src) (Some ''validation'') (init_default (10::nat) 5 3))) = None
   \<and> data_val (snd (setup_stage (\<lambda>src tf. Inr src) (Some ''validation'') (init_default (10::nat) 5 3)))
       = Some \<lparr> ds_id = 0, data_dir = 5,
               ds_transform = [ToPILImage, Grayscale 1, Resize 256 256, ToTensor, Normalize [0] [1]],
               ds_len = 5 \<rparr>
   \<and> data_test (snd (setup_stage (\<lambda>src tf. Inr src) (Some ''validation'') (init_default (10::nat) 5 3)))
       = Some \<lparr> ds_id = 1, data_dir = 3,
               ds_transform = [ToPILImage, Grayscale 1, Resize 256 256, ToTensor, Normalize [0] [1]],
               ds_len = 3 \<rparr>
   \<and> data_predict (snd (setup_stage (\<lambda>src tf. Inr src) (Some ''predict'') (init_default (10::nat) 5 3)))
       = Some \<lparr> ds_id = 0, data_dir = 3,
              ds_transform = [ToPILImage, Grayscale 1, Resize 256 256, ToTensor, Normalize [0] [1]],
              ds_len = 3 \<rparr>
   \<and> setup_stage (\<lambda>src tf. Inr src) (Some ''predict'')
        (snd (setup_stage (\<lambda>src tf. Inr src) (Some ''validation'') (init_default (10::nat) 5 3)))
       = (None, snd (setup_stage (\<lambda>src tf. Inr src) (Some ''validation'') (init_default (10::nat) 5 3)))"
proof -
  let ?A = "\<lambda>(src::nat) (tf::pipeline). (Inr src :: exn + nat)"
  let ?ini = "init_default (10::nat) 5 3"
  let ?tr = "[ToPILImage, Grayscale 1, Resize 256 256, RandomRotation 20, ToTensor,
              Normalize [0] [1]]"
  let ?tf = "[ToPILImage, Grayscale 1, Resize 256 256, ToTensor, Normalize [0] [1]]"
  have ini: "adapter_log ?ini = []" "ds_train ?ini = 10" "ds_val ?ini = 5"
    "ds_test ?ini = 3" "train_transform ?ini = ?tr" "val_transform ?ini = ?tf"
    "test_transform ?ini = ?tf" "data_train ?ini = None" "data_val ?ini = None"
    "data_predict ?ini = None"
    and dt: "data_test ?ini = None"
    by (simp_all add: init_default_def init_def)
  have ok: "\<forall>r \<in> set (stage_roles stage).
              \<exists>n. 0 < n \<and> ?A (role_source r ?ini) (role_transform r ?ini) = Inr n"
    if "stage \<in> {Some ''train'', Some ''validation'', None}" for stage
    using that by (auto simp: stage_roles_def init_default_def init_def)
  have planned: "filter (unresolved ?ini) (stage_roles (Some ''train'')) = [Train]"
    "filter (unresolved ?ini) (stage_roles (Some ''validation'')) = [Validation, Test]"
    "filter (unresolved ?ini) (stage_roles None) = [Train, Validation, Test]"
    by (simp_all add: stage_roles_def init_default_def init_def)
  note t = setup_stage_scoping [of "Some ''train''" ?A ?ini]
  note v = setup_stage_scoping [of "Some ''validation''" ?A ?ini]
  note n = setup_stage_scoping [of None ?A ?ini]
  note p = setup_stage_scoping [of "Some ''predict''" ?A ?ini]
  let ?mt = "snd (setup_stage ?A (Some ''train'') ?ini)"
  let ?mv = "snd (setup_stage ?A (Some ''validation'') ?ini)"
  let ?mn = "snd (setup_stage ?A None ?ini)"
  have ft: "fst (setup_stage ?A (Some ''train'') ?ini) = None"
    using t ok [of "Some ''train''"] by blast
  have fv: "fst (setup_stage ?A (Some ''validation'') ?ini) = None"
    using v ok [of "Some ''validation''"] by blast
  have fn: "fst (setup_stage ?A None ?ini) = None"
    using n ok [of None] by blast
  have full: "fst (setup_stage ?A stage ?ini) = None \<longrightarrow>
        new_calls ?ini (snd (setup_stage ?A stage ?ini))
          = map (\<lambda>r. (r, role_source r ?ini, role_transform r ?ini))
              (filter (unresolved ?ini) (stage_roles stage))" for stage
    using setup_stage_scoping [of stage ?A ?ini] by blast
  have ct: "new_calls ?ini ?mt = [(Train, 10, ?tr)]"
    using full [of "Some ''train''"] ft by (simp add: planned ini)
  have cv: "new_calls ?ini ?mv = [(Validation, 5, ?tf), (Test, 3, ?tf)]"
    using full [of "Some ''validation''"] fv by (simp add: planned ini)
  have cn: "new_calls ?ini ?mn = [(Train, 10, ?tr), (Validation, 5, ?tf), (Test, 3, ?tf)]"
    using full [of None] fn by (simp add: planned ini)
  have slots: "\<forall>i r src tf k.
        i < length (new_calls ?ini (snd (setup_stage ?A stage ?ini))) \<longrightarrow>
        new_calls ?ini (snd (setup_stage ?A stage ?ini)) ! i = (r, src, tf) \<longrightarrow>
        ?A src tf = Inr k \<longrightarrow>
        slot r (snd (setup_stage ?A stage ?ini))
          = Some \<lparr> ds_id = length (adapter_log ?ini) + i, data_dir = src,
                   ds_transform = tf, ds_len = k \<rparr>" for stage
    using setup_stage_scoping [of stage ?A ?ini] by blast
  have keep: "\<forall>r. r \<notin> set (stage_roles stage) \<longrightarrow>
                slot r (snd (setup_stage ?A stage ?ini)) = slot r ?ini" for stage
    using setup_stage_scoping [of stage ?A ?ini] by blast
  have n0: "slot Train ?mn = Some \<lparr> ds_id = 0, data_dir = 10, ds_transform = ?tr, ds_len = 10 \<rparr>"
    using slots [of None, rule_format, of 0 Train 10 ?tr 10] by (simp add: cn ini)
  have n1: "slot Validation ?mn = Some \<lparr> ds_id = 1, data_dir = 5, ds_transform = ?tf, ds_len = 5 \<rparr>"
    using slots [of None, rule_format, of 1 Validation 5 ?tf 5] by (simp add: cn ini)
  have n2: "slot Test ?mn = Some \<lparr> ds_id = 2, data_dir = 3, ds_transform = ?tf, ds_len = 3 \<rparr>"
    using slots [of None, rule_format, of 2 Test 3 ?tf 3] by (simp add: cn ini)
  have n3: "slot Predict ?mn = None"
    using keep [of None, rule_format, of Predict] by (simp add: stage_roles_def ini)
  have v0: "slot Validation ?mv = Some \<lparr> ds_id = 0, data_dir = 5, ds_transform = ?tf, ds_len = 5 \<rparr>"
    using slots [of "Some ''validation''", rule_format, of 0 Validation 5 ?tf 5] by (simp add: cv ini)
  have v1: "slot Test ?mv = Some \<lparr> ds_id = 1, data_dir = 3, ds_transform = ?tf, ds_len = 3 \<rparr>"
    using slots [of "Some ''validation''", rule_format, of 1 Test 3 ?tf 3] by (simp add: cv ini)
  have v2: "slot Train ?mv = None"
    using keep [of "Some ''validation''", rule_format, of Train] by (simp add: stage_roles_def ini)
  have tt: "setup_stage ?A (Some ''train'') ?ini
     = (None, ?ini \<lparr> adapter_log := [(Train, 10, ?tr)],
            data_train := Some \<lparr> ds_id = 0, data_dir = 10, ds_transform = ?tr, ds_len = 10 \<rparr> \<rparr>)"
    by (simp add: setup_eval)
  have "data_test ?mv \<noteq> None" using v1 by simp
  with setup_stage_scoping [of "Some ''predict''" ?A ?mv]
  have pv: "setup_stage ?A (Some ''predict'') ?mv = (None, ?mv)"
    by blast
  have "snd (setup_stage ?A (Some ''predict'') ?ini) =
           ?ini\<lparr> adapter_log := adapter_log ?ini @ [(Predict, ds_test ?ini, test_transform ?ini)],
               data_predict := Some \<lparr> ds_id = length (adapter_log ?ini), data_dir = ds_test ?ini,
                                      ds_transform = test_transform ?ini, ds_len = 3 \<rparr> \<rparr>"
    using p dt ini(4,7) by simp
  then have pp: "data_predict (snd (setup_stage ?A (Some ''predict'') ?ini))
       = Some \<lparr> ds_id = 0, data_dir = 3, ds_transform = ?tf, ds_len = 3 \<rparr>"
    by (simp add: ini)
  from tt fn n0 n1 n2 n3 fv v0 v1 v2 pv pp show ?thesis
    by simp
qed

theorem shuffle_policy_witness:
  "0 < hp_batch_size (hparams (snd (setup_stage (\<lambda>src tf. Inr src) (Some ''validation'') (init (10::nat) 5 3 (600, 500) 4 0 False))))
   \<and> data_val (snd (setup_stage (\<lambda>src tf. Inr src) (Some ''validation'') (init (10::nat) 5 3 (600, 500) 4 0 False)))
       = Some \<lparr> ds_id = 0, data_dir = 5,
              ds_transform = [ToPILImage, Grayscale 1, Resize 256 256, ToTensor, Normalize [0] [1]],
              ds_len = 5 \<rparr>
   \<and> map_option concat (iterate (\<lambda>k xs. rev xs) 7
        (val_dataloader (\<lambda>a. a)
          (snd (setup_stage (\<lambda>src tf. Inr src) (Some ''validation'') (init (10::nat) 5 3 (600, 500) 4 0 False)))))
       = Some [0, 1, 2, 3, 4]"
proof -
  let ?A = "\<lambda>(src::nat) (tf::pipeline). (Inr src :: exn + nat)"
  let ?m = "snd (setup_stage ?A (Some ''validation'') (init (10::nat) 5 3 (600, 500) 4 0 False))"
  let ?d = "\<lparr> ds_id = 0, data_dir = 5::nat,
              ds_transform = [ToPILImage, Grayscale 1, Resize 256 256, ToTensor, Normalize [0] [1]],
              ds_len = 5 \<rparr>"
  have b: "0 < hp_batch_size (hparams ?m)" and d: "data_val ?m = Some ?d"
    by (simp_all add: setup_eval)
  have "map_option concat (iterate (\<lambda>k xs. rev xs) 7 (val_dataloader (\<lambda>a. a) ?m))
          = Some [0..<ds_len ?d]"
    using shuffle_policy [of ?m "\<lambda>k xs. rev xs" 7] b d by blast
  moreover have "[0..<ds_len ?d] = [0, 1, 2, 3, 4]"
    by (simp add: upt_rec [of _ "numeral _"] upt_rec [of 0])
  ultimately show ?thesis using b d by simp
qed


theorem emptiness_gate_witness:
  "(Validation, 0, [ToPILImage, Grayscale 1, Resize 256 256, ToTensor, Normalize [0] [1]])
     \<in> set (new_calls (init_default (10::nat) 0 3)
          (snd (setup_stage (\<lambda>src tf. Inr src) (Some ''validation'') (init_default (10::nat) 0 3))))
   \<and> fst (setup_stage (\<lambda>src tf. Inr src) (Some ''validation'') (init_default (10::nat) 0 3))
       = Some (ValueError ''Validation dataset is empty.'')
   \<and> last (adapter_log
        (snd (setup_stage (\<lambda>src tf. Inr src) (Some ''validation'') (init_default (10::nat) 0 3))))
       = (Validation, 0, [ToPILImage, Grayscale 1, Resize 256 256, ToTensor, Normalize [0] [1]])"
proof -
  let ?A = "\<lambda>(src::nat) (tf::pipeline). (Inr src :: exn + nat)"
  let ?ini = "init_default (10::nat) 0 3"
  let ?tf = "[ToPILImage, Grayscale 1, Resize 256 256, ToTensor, Normalize [0] [1]]"
  have c: "(Validation, 0, ?tf)
             \<in> set (new_calls ?ini (snd (setup_stage ?A (Some ''validation'') ?ini)))"
    by (simp add: setup_eval new_calls_def)
  have e: "?A 0 ?tf = Inr 0" by simp
  note g = emptiness_gate [OF c e, where DataLoader = "Inr :: nat loader_args \<Rightarrow> exn + nat loader_args"]
  from g have "fst (setup_stage ?A (Some ''validation'') ?ini)
                 = Some (ValueError (empty_message Validation))"
    by (rule conjunct1)
  moreover from g have "last (adapter_log (snd (setup_stage ?A (Some ''validation'') ?ini)))
                 = (Validation, 0, ?tf)"
    by blast
  ultimately show ?thesis using c by simp
qed

text \<open>
  C3, as stated, fails in its last part: after \<open>setup('validation')\<close> has raised for an
  empty validation source, the validation getter (with a constructor that accepts its
  arguments) builds a loader over the empty dataset.
\<close>

theorem emptiness_gate_loader_counterexample:
  "fst (setup_stage (\<lambda>src tf. Inr src) (Some ''validation'') (init_default (10::nat) 0 3))
     = Some (ValueError ''Validation dataset is empty.'')
   \<and> val_dataloader Inr
        (snd (setup_stage (\<lambda>src tf. Inr src) (Some ''validation'') (init_default (10::nat) 0 3)))
     = (Inr \<lparr> dataset = Some \<lparr> ds_id = 0, data_dir = 0,
                                 ds_transform = [ToPILImage, Grayscale 1, Resize 256 256,
                                                 ToTensor, Normalize [0] [1]],
                                 ds_len = 0 \<rparr>,
               batch_size = 64, num_workers = 0, pin_memory = False, shuffle = False \<rparr>
        :: exn + nat loader_args)"
  by (simp add: setup_eval val_dataloader_def)

theorem setup_failure_keeps_resolved_witness:
  "(Validation, 0, [ToPILImage, Grayscale 1, Resize 256 256, ToTensor, Normalize [0] [1]])
     \<in> set (new_calls (init_default (10::nat) 0 3)
          (snd (setup_stage (\<lambda>src tf. Inr src) None (init_default (10::nat) 0 3))))
   \<and> call_failed (\<lambda>src tf. Inr src)
        (Validation, 0::nat, [ToPILImage, Grayscale 1, Resize 256 256, ToTensor, Normalize [0] [1]])
   \<and> fst (setup_stage (\<lambda>src tf. Inr src) None (init_default (10::nat) 0 3))
       = Some (ValueError ''Validation dataset is empty.'')
   \<and> slot Train (snd (setup_stage (\<lambda>src tf. Inr src) None (init_default (10::nat) 0 3)))
       = Some \<lparr> ds_id = 0, data_dir = 10,
                ds_transform = [ToPILImage, Grayscale 1, Resize 256 256, RandomRotation 20,
                                ToTensor, Normalize [0] [1]],
                ds_len = 10 \<rparr>"
proof -
  let ?A = "\<lambda>(src::nat) (tf::pipeline). (Inr src :: exn + nat)"
  let ?ini = "init_default (10::nat) 0 3"
  let ?m = "snd (setup_stage ?A None ?ini)"
  let ?tf = "[ToPILImage, Grayscale 1, Resize 256 256, ToTensor, Normalize [0] [1]]"
  let ?tr = "[ToPILImage, Grayscale 1, Resize 256 256, RandomRotation 20, ToTensor,
              Normalize [0] [1]]"
  have n: "new_calls ?ini ?m = [(Train, 10, ?tr), (Validation, 0, ?tf)]"
    by (simp add: setup_eval new_calls_def)
  then have c: "(Validation, 0, ?tf) \<in> set (new_calls ?ini ?m)"
    by simp
  have f: "call_failed ?A (Validation, 0, ?tf)"
    by (simp add: call_failed_def)
  note k = setup_failure_keeps_resolved [OF c f]
  have 1: "fst (setup_stage ?A None ?ini) = Some (ValueError ''Validation dataset is empty.'')"
    using k by simp
  have "0 < length (new_calls ?ini ?m)" "new_calls ?ini ?m ! 0 = (Train, 10, ?tr)"
    "?A 10 ?tr = Inr 10"
    by (simp_all add: n)
  with k have "slot Train ?m = Some \<lparr> ds_id = length (adapter_log ?ini) + 0, data_dir = 10,
                                       ds_transform = ?tr, ds_len = 10 \<rparr>"
    by blast
  then have 2: "slot Train ?m = Some \<lparr> ds_id = 0, data_dir = 10, ds_transform = ?tr,
                                        ds_len = 10 \<rparr>"
    by (simp add: init_default_def init_def)
  from c f 1 2 show ?thesis by simp
qed

theorem loader_batch_shape_witness:
  "iterate (\<lambda>k xs. rev xs) 0
      (train_dataloader (\<lambda>a. a)
         (snd (setup_stage (\<lambda>src tf. Inr src) None (init (10::nat) 5 3 (600, 500) 4 0 False))))
     = Some [[9, 8, 7, 6], [5, 4, 3, 2], [1, 0]]
   \<and> iterate (\<lambda>k xs. rev xs) 0
      (val_dataloader (\<lambda>a. a)
         (snd (setup_stage (\<lambda>src tf. Inr src) None (init (10::nat) 5 3 (600, 500) 4 0 False))))
     = Some [[0, 1, 2, 3], [4]]
   \<and> iterate (\<lambda>k xs. rev xs) 0
      (test_dataloader (\<lambda>a. a)
         (snd (setup_stage (\<lambda>src tf. Inr src) None (init (10::nat) 5 3 (600, 500) 4 0 False))))
     = Some [[0, 1, 2]]"
proof -
  let ?A = "\<lambda>(src::nat) (tf::pipeline). (Inr src :: exn + nat)"
  let ?P = "\<lambda>(k::nat) (xs::nat list). rev xs"
  let ?m = "snd (setup_stage ?A None (init (10::nat) 5 3 (600, 500) 4 0 False))"
  let ?tr = "[ToPILImage, Grayscale 1, Resize 256 256, RandomRotation 20, ToTensor,
              Normalize [0] [1]]"
  let ?tf = "[ToPILImage, Grayscale 1, Resize 256 256, ToTensor, Normalize [0] [1]]"
  let ?d0 = "\<lparr> ds_id = 0, data_dir = 10::nat, ds_transform = ?tr, ds_len = 10 \<rparr>"
  let ?d1 = "\<lparr> ds_id = 1, data_dir = 5::nat, ds_transform = ?tf, ds_len = 5 \<rparr>"
  let ?d2 = "\<lparr> ds_id = 2, data_dir = 3::nat, ds_transform = ?tf, ds_len = 3 \<rparr>"
  have s: "slot Train ?m = Some ?d0" "slot Validation ?m = Some ?d1" "slot Test ?m = Some ?d2"
    and b: "hp_batch_size (hparams ?m) = int 4"
    by (simp_all add: setup_eval)
  have p: "\<forall>xs. length (?P 0 xs) = length xs" by simp
  have u: "[0..<10] = [0, 1, 2, 3, 4, 5, 6, 7, 8, 9::nat]" "[0..<5] = [0, 1, 2, 3, 4::nat]"
    "[0..<3] = [0, 1, 2::nat]"
    by (simp_all add: upt_rec [of _ "numeral _"] upt_rec [of 0])
  have k: "xs \<noteq> [] \<Longrightarrow> batches 4 xs = take 4 xs # batches 4 (drop 4 xs)" for xs :: "nat list"
    by (rule batches_step) simp
  from loader_batch_shape [of Train "train_dataloader (\<lambda>a. a) ?m" ?m ?d0 10 4 ?P 0] s(1) b p
  obtain bs0 where "iterate ?P 0 (train_dataloader (\<lambda>a. a) ?m) = Some bs0"
    "concat bs0 = rev [0..<10]"
    by auto
  moreover have "iterate ?P 0 (train_dataloader (\<lambda>a. a) ?m) = Some (batches 4 (rev [0..<10]))"
    using s(1) b by (simp add: iterate_def train_dataloader_def)
  ultimately have 1: "iterate ?P 0 (train_dataloader (\<lambda>a. a) ?m)
                        = Some [[9, 8, 7, 6], [5, 4, 3, 2], [1, 0]]"
    by (simp add: u k batches_Nil)
  from loader_batch_shape [of Validation "val_dataloader (\<lambda>a. a) ?m" ?m ?d1 5 4 ?P 0] s(2) b p
  obtain bs1 where "iterate ?P 0 (val_dataloader (\<lambda>a. a) ?m) = Some bs1"
    "concat bs1 = [0..<5]"
    by auto
  moreover have "iterate ?P 0 (val_dataloader (\<lambda>a. a) ?m) = Some (batches 4 [0..<5])"
    using s(2) b by (simp add: iterate_def val_dataloader_def)
  ultimately have 2: "iterate ?P 0 (val_dataloader (\<lambda>a. a) ?m) = Some [[0, 1, 2, 3], [4]]"
    by (simp add: u k batches_Nil)
  from loader_batch_shape [of Test "test_dataloader (\<lambda>a. a) ?m" ?m ?d2 3 4 ?P 0] s(3) b p
  obtain bs2 where "iterate ?P 0 (test_dataloader (\<lambda>a. a) ?m) = Some bs2"
    "concat bs2 = [0..<3]"
    by auto
  moreover have "iterate ?P 0 (test_dataloader (\<lambda>a. a) ?m) = Some (batches 4 [0..<3])"
    using s(3) b by (simp add: iterate_def test_dataloader_def)
  ultimately have 3: "iterate ?P 0 (test_dataloader (\<lambda>a. a) ?m) = Some [[0, 1, 2]]"
    by (simp add: u k batches_Nil)
  from 1 2 3 show ?thesis by simp
qed


end
